theory Spec2Isabelle
  imports Complex_Main "HOL-Library.Stream" "HOL-Library.AList"
begin

section \<open>The manufacturing sensor data generator\<close>

text \<open>
  A shallow embedding of \<^verbatim>\<open>data_generator.py\<close> (class ManufacturingDataGenerator).
  Python floats are read as exact reals: every comparison of the program is exact on
  floats, and the arithmetic is kept in the order the program performs it; a computed
  float can differ from the real by its rounding, so that a value at the very edge of a
  range, or a tie of \<^verbatim>\<open>round\<close>, can fall on the other side in the program. Python ints
  are \<open>int\<close>. The two process-wide random sources (the module \<^verbatim>\<open>random\<close> and
  \<^verbatim>\<open>numpy.random\<close>) are explicit state, threaded through every call in program order.
\<close>

subsection \<open>Exceptions\<close>

datatype exn = ZeroDivisionError | ValueError | AttributeError | KeyError | IndexError

definition bind_exn :: "exn + 'a \<Rightarrow> ('a \<Rightarrow> exn + 'b) \<Rightarrow> exn + 'b" where
  "bind_exn m f = (case m of Inl e \<Rightarrow> Inl e | Inr x \<Rightarrow> f x)"

subsection \<open>Integer division and ranges\<close>

definition py_floordiv :: "int \<Rightarrow> int \<Rightarrow> exn + int" where
  "py_floordiv a b = (if b = 0 then Inl ZeroDivisionError else Inr (a div b))"

text \<open>\<^verbatim>\<open>range(n)\<close> and \<^verbatim>\<open>range(start, stop, step)\<close>; a zero step raises ValueError.\<close>

definition py_range :: "int \<Rightarrow> int list" where
  "py_range n = map int [0..<nat n]"

definition py_range3 :: "int \<Rightarrow> int \<Rightarrow> int \<Rightarrow> exn + int list" where
  "py_range3 start stop step =
     (if step = 0 then Inl ValueError
      else if 0 < step then
        Inr (map (\<lambda>k. start + int k * step) [0..<nat ((stop - start + step - 1) div step)])
      else
        Inr (map (\<lambda>k. start + int k * step) [0..<nat ((start - stop - step - 1) div (- step))]))"

subsection \<open>Rounding and number formatting\<close>

text \<open>\<^verbatim>\<open>round(x, n)\<close>: to \<open>n\<close> decimals, a tie going to the even neighbour.\<close>

definition round_half_even :: "real \<Rightarrow> int" where
  "round_half_even s =
     (let f = \<lfloor>s\<rfloor>; d = s - real_of_int f
      in if d < 1 / 2 then f else if 1 / 2 < d then f + 1
         else if even f then f else f + 1)"

definition py_round :: "real \<Rightarrow> nat \<Rightarrow> real" where
  "py_round x n = real_of_int (round_half_even (x * 10 ^ n)) / 10 ^ n"

fun str_nat :: "nat \<Rightarrow> string" where
  "str_nat n = (if n < 10 then [char_of (48 + n)]
                else str_nat (n div 10) @ [char_of (48 + n mod 10)])"

declare str_nat.simps [simp del]

definition str_int :: "int \<Rightarrow> string" where
  "str_int i = (if i < 0 then CHR ''-'' # str_nat (nat (- i)) else str_nat (nat i))"

definition zfill :: "nat \<Rightarrow> string \<Rightarrow> string" where
  "zfill w s = replicate (w - length s) CHR ''0'' @ s"

subsection \<open>Timestamps\<close>

text \<open>
  A timestamp is a count of seconds since 1970-01-01 00:00:00; the program reads no
  finer part of one. A timedelta is a count of seconds too. The calendar fields are
  those of the proleptic Gregorian calendar; \<open>weekday\<close> is 0 on a Monday. The counts
  are unbounded integers and the operations total: the model is of the timestamps that
  every version of pandas holds (see \<open>dates_in_range\<close> below). Outside them pandas may
  raise on adding a timedelta or on formatting, and it has a not-a-time value, which is
  no timestamp of this model.
\<close>

type_synonym timestamp = int

definition timedelta_days :: "int \<Rightarrow> int" where
  "timedelta_days d = d * 86400"

definition timedelta_minutes :: "int \<Rightarrow> int" where
  "timedelta_minutes m = m * 60"

definition timedelta_seconds :: "int \<Rightarrow> int" where
  "timedelta_seconds s = s"

definition ts_date :: "timestamp \<Rightarrow> int" where
  "ts_date ts = ts div 86400"

definition ts_hour :: "timestamp \<Rightarrow> int" where
  "ts_hour ts = (ts mod 86400) div 3600"

definition ts_minute :: "timestamp \<Rightarrow> int" where
  "ts_minute ts = (ts mod 3600) div 60"

definition ts_second :: "timestamp \<Rightarrow> int" where
  "ts_second ts = ts mod 60"

definition weekday :: "timestamp \<Rightarrow> int" where
  "weekday ts = (ts_date ts + 3) mod 7"

definition civil_from_days :: "int \<Rightarrow> int \<times> int \<times> int" where
  "civil_from_days days =
     (let z = days + 719468;
          era = z div 146097;
          doe = z - era * 146097;
          yoe = (doe - doe div 1460 + doe div 36524 - doe div 146096) div 365;
          doy = doe - (365 * yoe + yoe div 4 - yoe div 100);
          mp = (5 * doy + 2) div 153;
          d = doy - (153 * mp + 2) div 5 + 1;
          m = (if mp < 10 then mp + 3 else mp - 9);
          y = yoe + era * 400 + (if m \<le> 2 then 1 else 0)
      in (y, m, d))"

definition days_from_civil :: "int \<Rightarrow> int \<Rightarrow> int \<Rightarrow> int" where
  "days_from_civil y m d =
     (let y' = (if m \<le> 2 then y - 1 else y);
          era = y' div 400;
          yoe = y' - era * 400;
          doy = (153 * (if m > 2 then m - 3 else m + 9) + 2) div 5 + d - 1;
          doe = yoe * 365 + yoe div 4 - yoe div 100 + doy
      in era * 146097 + doe - 719468)"

definition tm_yday :: "timestamp \<Rightarrow> int" where
  "tm_yday ts = (case civil_from_days (ts_date ts) of
                   (y, m, d) \<Rightarrow> ts_date ts - days_from_civil y 1 1 + 1)"

text \<open>
  \<^verbatim>\<open>strftime("%Y-%m-%d")\<close> of a calendar day and \<^verbatim>\<open>strftime("%Y-%m-%d %H:%M:%S")\<close> of a
  timestamp, for the years 1000 to 9999, which have four digits. (The program's
  \<^verbatim>\<open>strftime\<close> does not pad a year below 1000 and raises past 9999; those years are
  outside the dates in range.)
\<close>

definition strftime_ymd :: "int \<Rightarrow> string" where
  "strftime_ymd days = (case civil_from_days days of (y, m, d) \<Rightarrow>
     zfill 4 (str_int y) @ ''-'' @ zfill 2 (str_int m) @ ''-'' @ zfill 2 (str_int d))"

definition strftime_date :: "timestamp \<Rightarrow> string" where
  "strftime_date ts = strftime_ymd (ts_date ts)"

definition strftime_datetime :: "timestamp \<Rightarrow> string" where
  "strftime_datetime ts = strftime_date ts @ '' '' @ zfill 2 (str_int (ts_hour ts)) @ '':'' @
     zfill 2 (str_int (ts_minute ts)) @ '':'' @ zfill 2 (str_int (ts_second ts))"

subsection \<open>Random sources\<close>

text \<open>
  Each source is an endless stream of raw reals; a draw reads the head and leaves the
  tail. \<^verbatim>\<open>random.random()\<close> returns a float in [0, 1): the raw real's fractional part.
  The other functions of the module are written as the library defines them from it:
  \<^verbatim>\<open>uniform(a, b) = a + (b - a) * random()\<close>, \<^verbatim>\<open>randint(a, b) = a + randbelow(b - a + 1)\<close>,
  \<^verbatim>\<open>choice(seq) = seq[randbelow(len(seq))]\<close>, with \<^verbatim>\<open>randbelow(n)\<close> an integer in [0, n).
  An empty range raises ValueError, an empty sequence IndexError.
\<close>

record rng =
  py_random :: "real stream"
  np_random :: "real stream"

definition random_random :: "rng \<Rightarrow> real \<times> rng" where
  "random_random g = (frac (shd (py_random g)), g\<lparr>py_random := stl (py_random g)\<rparr>)"

definition random_uniform :: "real \<Rightarrow> real \<Rightarrow> rng \<Rightarrow> real \<times> rng" where
  "random_uniform a b g = (case random_random g of (u, g') \<Rightarrow> (a + (b - a) * u, g'))"

definition randbelow :: "int \<Rightarrow> rng \<Rightarrow> int \<times> rng" where
  "randbelow n g = (case random_random g of (u, g') \<Rightarrow> (\<lfloor>u * real_of_int n\<rfloor>, g'))"

definition random_randint :: "int \<Rightarrow> int \<Rightarrow> rng \<Rightarrow> exn + int \<times> rng" where
  "random_randint a b g =
     (if b < a then Inl ValueError
      else case randbelow (b - a + 1) g of (k, g') \<Rightarrow> Inr (a + k, g'))"

definition random_choice :: "'a list \<Rightarrow> rng \<Rightarrow> exn + 'a \<times> rng" where
  "random_choice seq g =
     (if seq = [] then Inl IndexError
      else case randbelow (int (length seq)) g of (k, g') \<Rightarrow> Inr (seq ! nat k, g'))"

text \<open>
  \<^verbatim>\<open>np.random.normal(loc, scale)\<close> is \<open>loc + scale * z\<close> for a standard normal draw \<open>z\<close>,
  any real. \<^verbatim>\<open>np.random.choice(a, p=p)\<close> draws a uniform number in [0, 1) and returns the
  entry whose index is the number of cumulative weights not above the draw; it raises
  ValueError unless \<open>p\<close> is a probability vector as long as \<open>a\<close>.
\<close>

definition np_random_normal :: "real \<Rightarrow> real \<Rightarrow> rng \<Rightarrow> real \<times> rng" where
  "np_random_normal loc scale g =
     (loc + scale * shd (np_random g), g\<lparr>np_random := stl (np_random g)\<rparr>)"

fun cumsum :: "real \<Rightarrow> real list \<Rightarrow> real list" where
  "cumsum acc [] = []"
| "cumsum acc (p # ps) = (acc + p) # cumsum (acc + p) ps"

definition np_random_choice :: "'a list \<Rightarrow> real list \<Rightarrow> rng \<Rightarrow> exn + 'a \<times> rng" where
  "np_random_choice a p g =
     (if a = [] \<or> length p \<noteq> length a \<or> (\<exists>x \<in> set p. x < 0) \<or> sum_list p \<noteq> 1
      then Inl ValueError
      else let u = frac (shd (np_random g));
               idx = length (filter (\<lambda>c. c \<le> u) (cumsum 0 p))
           in Inr (a ! idx, g\<lparr>np_random := stl (np_random g)\<rparr>))"

subsection \<open>Configuration\<close>

record sensor_config =
  sensor_id :: string
  equipment_id :: string
  type :: string
  location :: string
  normal_range :: "real \<times> real"
  alert_threshold :: "real \<times> real"
  error_rate :: real

record equipment_config =
  eq_equipment_id :: string
  eq_name :: string
  eq_type :: string
  eq_location :: string
  eq_status :: string

definition create_sensor_config :: "sensor_config list" where
  "create_sensor_config =
     [\<lparr>sensor_id = ''TEMP_001'', equipment_id = ''EQ_FURNACE_01'', type = ''temperature'',
       location = ''Production Line A'', normal_range = (20, 25),
       alert_threshold = (15, 35), error_rate = 0.02\<rparr>,
      \<lparr>sensor_id = ''TEMP_002'', equipment_id = ''EQ_FURNACE_02'', type = ''temperature'',
       location = ''Production Line B'', normal_range = (22, 28),
       alert_threshold = (18, 40), error_rate = 0.015\<rparr>,
      \<lparr>sensor_id = ''HUM_001'', equipment_id = ''EQ_CHAMBER_01'', type = ''humidity'',
       location = ''Quality Control'', normal_range = (45, 55),
       alert_threshold = (30, 70), error_rate = 0.01\<rparr>,
      \<lparr>sensor_id = ''PRESS_001'', equipment_id = ''EQ_COMPRESSOR_01'', type = ''pressure'',
       location = ''Pneumatic System'', normal_range = (100, 120),
       alert_threshold = (80, 150), error_rate = 0.025\<rparr>,
      \<lparr>sensor_id = ''VIB_001'', equipment_id = ''EQ_MOTOR_01'', type = ''vibration'',
       location = ''Motor Assembly'', normal_range = (0.1, 0.3),
       alert_threshold = (0.05, 0.8), error_rate = 0.03\<rparr>]"

definition create_equipment_config :: "equipment_config list" where
  "create_equipment_config =
     [\<lparr>eq_equipment_id = ''EQ_FURNACE_01'', eq_name = ''Industrial Furnace Unit 1'',
       eq_type = ''Heating Equipment'', eq_location = ''Production Line A'',
       eq_status = ''operational''\<rparr>,
      \<lparr>eq_equipment_id = ''EQ_FURNACE_02'', eq_name = ''Industrial Furnace Unit 2'',
       eq_type = ''Heating Equipment'', eq_location = ''Production Line B'',
       eq_status = ''operational''\<rparr>,
      \<lparr>eq_equipment_id = ''EQ_CHAMBER_01'', eq_name = ''Environmental Chamber'',
       eq_type = ''Climate Control'', eq_location = ''Quality Control'',
       eq_status = ''operational''\<rparr>,
      \<lparr>eq_equipment_id = ''EQ_COMPRESSOR_01'', eq_name = ''Air Compressor System'',
       eq_type = ''Pneumatic Equipment'', eq_location = ''Pneumatic System'',
       eq_status = ''operational''\<rparr>,
      \<lparr>eq_equipment_id = ''EQ_MOTOR_01'', eq_name = ''Primary Drive Motor'',
       eq_type = ''Motor Assembly'', eq_location = ''Motor Assembly'',
       eq_status = ''operational''\<rparr>]"

text \<open>
  The generator object. \<open>init\<close> is \<^verbatim>\<open>__init__\<close> after \<^verbatim>\<open>pd.to_datetime\<close> has parsed the
  start date to a timestamp: it takes the parsed timestamp. (\<open>init_from_string\<close> below
  is \<^verbatim>\<open>__init__\<close> with the parser.)
\<close>

record generator =
  start_date :: timestamp
  num_days :: int
  sensors :: "sensor_config list"
  equipment :: "equipment_config list"

definition init :: "timestamp \<Rightarrow> int \<Rightarrow> generator" where
  "init start n =
     \<lparr>start_date = start, num_days = n,
      sensors = create_sensor_config, equipment = create_equipment_config\<rparr>"

subsection \<open>Quality scoring\<close>

definition calculate_quality_score :: "sensor_config \<Rightarrow> real \<Rightarrow> rng \<Rightarrow> real \<times> rng" where
  "calculate_quality_score sensor val g =
     (case normal_range sensor of (min_normal, max_normal) \<Rightarrow>
      case alert_threshold sensor of (min_alert, max_alert) \<Rightarrow>
        if min_normal \<le> val \<and> val \<le> max_normal then random_uniform 0.95 1.0 g
        else if min_alert \<le> val \<and> val \<le> max_alert then random_uniform 0.7 0.9 g
        else random_uniform 0.1 0.6 g)"

subsection \<open>Sensor values\<close>

definition generate_realistic_value :: "sensor_config \<Rightarrow> timestamp \<Rightarrow> rng \<Rightarrow> real \<times> rng" where
  "generate_realistic_value sensor ts g =
     (case normal_range sensor of (min_val, max_val) \<Rightarrow>
      case random_uniform min_val max_val g of (base0, g1) \<Rightarrow>
      let hour = ts_hour ts in
      case (if type sensor = ''temperature'' \<and> 6 \<le> hour \<and> hour \<le> 18
            then (case random_uniform 1 3 g1 of (off, g2) \<Rightarrow> (base0 + off, g2))
            else (base0, g1)) of (base1, g2) \<Rightarrow>
      let base2 = (if 5 \<le> weekday ts then base1 * 0.95 else base1);
          base3 = (if type sensor = ''temperature''
                   then base2 + 2 * sin (2 * pi * real_of_int (tm_yday ts) / 365)
                   else base2)
      in (base3, g2))"

subsection \<open>Sensor readings\<close>

record sensor_reading =
  r_sensor_id :: string
  r_equipment_id :: string
  r_timestamp :: string
  r_value :: real
  r_sensor_type :: string
  r_location :: string
  r_status :: string
  r_quality_score :: real
  r_is_anomaly :: bool
  r_temperature :: "real option"
  r_humidity :: "real option"
  r_pressure :: "real option"
  r_vibration_magnitude :: "real option"
  r_vibration_x :: "real option"
  r_vibration_y :: "real option"
  r_vibration_z :: "real option"
  r_unit :: "string option"

text \<open>
  The value of one reading (the variable \<^verbatim>\<open>value\<close> of the loop body): the base value plus
  noise, replaced by the base value times a factor when the anomaly draw is below the
  sensor's error rate. It returns the base value, the noise and the anomaly flag with it.
\<close>

definition reading_value ::
  "sensor_config \<Rightarrow> timestamp \<Rightarrow> rng \<Rightarrow> exn + (real \<times> real \<times> bool \<times> real) \<times> rng" where
  "reading_value sensor ts g =
     (case generate_realistic_value sensor ts g of (base_value, g1) \<Rightarrow>
      case np_random_normal 0 0.1 g1 of (noise, g2) \<Rightarrow>
      case random_random g2 of (u, g3) \<Rightarrow>
      let is_anomaly = (u < error_rate sensor) in
      if is_anomaly
      then bind_exn (random_choice [- 2, - 1.5, 1.5, 2] g3)
             (\<lambda>(anomaly_factor, g4). Inr ((base_value, noise, is_anomaly, base_value * anomaly_factor), g4))
      else Inr ((base_value, noise, is_anomaly, base_value + noise), g3))"

text \<open>The body of the innermost loop of \<^verbatim>\<open>generate_sensor_data\<close>: one record.\<close>

definition sensor_record :: "sensor_config \<Rightarrow> timestamp \<Rightarrow> rng \<Rightarrow> exn + sensor_reading \<times> rng" where
  "sensor_record sensor ts g =
     bind_exn (reading_value sensor ts g) (\<lambda>((base_value, noise, is_anomaly, val), g4).
       case calculate_quality_score sensor val g4 of (quality_score, g5) \<Rightarrow>
       let record = \<lparr>r_sensor_id = sensor_id sensor, r_equipment_id = equipment_id sensor,
                     r_timestamp = strftime_datetime ts, r_value = py_round val 3,
                     r_sensor_type = type sensor, r_location = location sensor,
                     r_status = (if is_anomaly then ''error'' else ''normal''),
                     r_quality_score = py_round quality_score 3, r_is_anomaly = is_anomaly,
                     r_temperature = None, r_humidity = None, r_pressure = None,
                     r_vibration_magnitude = None, r_vibration_x = None,
                     r_vibration_y = None, r_vibration_z = None, r_unit = None\<rparr>
       in if type sensor = ''temperature'' then
            Inr (record\<lparr>r_temperature := Some (r_value record), r_unit := Some ''celsius''\<rparr>, g5)
          else if type sensor = ''humidity'' then
            Inr (record\<lparr>r_humidity := Some (r_value record), r_unit := Some ''percent''\<rparr>, g5)
          else if type sensor = ''pressure'' then
            Inr (record\<lparr>r_pressure := Some (r_value record), r_unit := Some ''psi''\<rparr>, g5)
          else if type sensor = ''vibration'' then
            (case np_random_normal 0 0.02 g5 of (nx, g6) \<Rightarrow>
             case np_random_normal 0 0.02 g6 of (ny, g7) \<Rightarrow>
             case np_random_normal 0 0.02 g7 of (nz, g8) \<Rightarrow>
               Inr (record\<lparr>r_vibration_magnitude := Some (r_value record),
                           r_vibration_x := Some (py_round (val + nx) 4),
                           r_vibration_y := Some (py_round (val + ny) 4),
                           r_vibration_z := Some (py_round (val + nz) 4),
                           r_unit := Some ''g''\<rparr>, g8))
          else Inr (record, g5))"

text \<open>
  The three loops of \<^verbatim>\<open>generate_sensor_data\<close>, innermost first. The state is the list
  \<^verbatim>\<open>data\<close>, appended to, and the random sources. The step \<^verbatim>\<open>1440 // records_per_day\<close> and
  the range of minutes are evaluated once per day, inside the day loop.
\<close>

fun sensors_loop ::
  "sensor_config list \<Rightarrow> timestamp \<Rightarrow> sensor_reading list \<times> rng \<Rightarrow> exn + sensor_reading list \<times> rng" where
  "sensors_loop [] ts st = Inr st"
| "sensors_loop (sensor # rest) ts (data, g) =
     bind_exn (sensor_record sensor ts g)
       (\<lambda>(record, g'). sensors_loop rest ts (data @ [record], g'))"

fun minutes_loop ::
  "int list \<Rightarrow> generator \<Rightarrow> timestamp \<Rightarrow> sensor_reading list \<times> rng \<Rightarrow> exn + sensor_reading list \<times> rng" where
  "minutes_loop [] self current_date st = Inr st"
| "minutes_loop (minute # rest) self current_date st =
     bind_exn (sensors_loop (sensors self) (current_date + timedelta_minutes minute) st)
       (minutes_loop rest self current_date)"

fun days_loop ::
  "int list \<Rightarrow> generator \<Rightarrow> int \<Rightarrow> sensor_reading list \<times> rng \<Rightarrow> exn + sensor_reading list \<times> rng" where
  "days_loop [] self records_per_day st = Inr st"
| "days_loop (day # rest) self records_per_day st =
     (let current_date = start_date self + timedelta_days day in
      bind_exn (py_floordiv 1440 records_per_day) (\<lambda>step.
      bind_exn (py_range3 0 1440 step) (\<lambda>minutes.
      bind_exn (minutes_loop minutes self current_date st)
        (days_loop rest self records_per_day))))"

text \<open>A DataFrame is the list of its rows.\<close>

definition generate_sensor_data :: "generator \<Rightarrow> int \<Rightarrow> rng \<Rightarrow> exn + sensor_reading list \<times> rng" where
  "generate_sensor_data self records_per_day g =
     days_loop (py_range (num_days self)) self records_per_day ([], g)"

subsection \<open>Equipment logs\<close>

record log_parameters =
  cpu_usage :: real
  memory_usage :: real
  network_latency :: real

record log_entry =
  l_equipment_id :: string
  l_equipment_name :: string
  l_timestamp :: string
  l_log_level :: string
  l_message :: string
  l_location :: string
  l_equipment_type :: string
  l_status :: string
  l_error_code :: "string option"
  l_severity :: "string option"
  l_warning_code :: "string option"
  l_parameters :: "log_parameters option"

text \<open>A dict literal is the list of its items in insertion order; a missing key raises.\<close>

definition dict_getitem :: "('k \<times> 'v) list \<Rightarrow> 'k \<Rightarrow> exn + 'v" where
  "dict_getitem d k = (case map_of d k of None \<Rightarrow> Inl KeyError | Some v \<Rightarrow> Inr v)"

definition log_templates :: "(string \<times> string list) list" where
  "log_templates =
     [(''INFO'', [''Equipment startup completed successfully'',
                  ''Maintenance cycle completed'',
                  ''Performance metrics within normal range'',
                  ''System health check passed'',
                  ''Configuration updated successfully'']),
      (''WARNING'', [''Temperature approaching upper threshold'',
                     ''Vibration levels elevated but within limits'',
                     ''Maintenance due within 24 hours'',
                     ''Performance efficiency below optimal'',
                     ''Sensor calibration recommended'']),
      (''ERROR'', [''Temperature exceeded safety threshold'',
                   ''Unexpected shutdown detected'',
                   ''Sensor malfunction detected'',
                   ''Communication timeout with control system'',
                   ''Safety interlock triggered'']),
      (''DEBUG'', [''Sensor reading validation completed'',
                   ''Control loop iteration completed'',
                   ''Memory usage check completed'',
                   ''Network heartbeat successful'',
                   ''Configuration parameter updated''])]"

definition level_weights :: "(string \<times> real) list" where
  "level_weights = [(''INFO'', 0.6), (''WARNING'', 0.25), (''ERROR'', 0.05), (''DEBUG'', 0.1)]"

definition generate_log_entry :: "equipment_config \<Rightarrow> timestamp \<Rightarrow> rng \<Rightarrow> exn + log_entry \<times> rng" where
  "generate_log_entry equip ts g =
     bind_exn (np_random_choice (map fst level_weights) (map snd level_weights) g) (\<lambda>(log_level, g1).
     bind_exn (dict_getitem log_templates log_level) (\<lambda>templates.
     bind_exn (random_choice templates g1) (\<lambda>(message, g2).
     let log_entry = \<lparr>l_equipment_id = eq_equipment_id equip,
                        l_equipment_name = eq_name equip,
                        l_timestamp = strftime_datetime ts, l_log_level = log_level,
                        l_message = message, l_location = eq_location equip,
                        l_equipment_type = eq_type equip, l_status = eq_status equip,
                        l_error_code = None, l_severity = None, l_warning_code = None,
                        l_parameters = None\<rparr> in
     bind_exn (if log_level = ''ERROR'' then
                 bind_exn (random_randint 1000 9999 g2) (\<lambda>(code, g3).
                 bind_exn (random_choice [''LOW'', ''MEDIUM'', ''HIGH'', ''CRITICAL''] g3) (\<lambda>(sev, g4).
                   Inr (log_entry\<lparr>l_error_code := Some (''ERR_'' @ str_int code),
                                    l_severity := Some sev\<rparr>, g4)))
               else Inr (log_entry, g2)) (\<lambda>(log_entry, g4).
     bind_exn (if log_level = ''WARNING'' then
                 bind_exn (random_randint 100 999 g4) (\<lambda>(code, g5).
                   Inr (log_entry\<lparr>l_warning_code := Some (''WARN_'' @ str_int code)\<rparr>, g5))
               else Inr (log_entry, g4)) (\<lambda>(log_entry, g5).
     case random_uniform 10 90 g5 of (cpu, g6) \<Rightarrow>
     case random_uniform 20 80 g6 of (mem, g7) \<Rightarrow>
     case random_uniform 1 50 g7 of (net, g8) \<Rightarrow>
       Inr (log_entry\<lparr>l_parameters :=
              Some \<lparr>cpu_usage = py_round cpu 2, memory_usage = py_round mem 2,
                    network_latency = py_round net 2\<rparr>\<rparr>, g8))))))"

text \<open>The three loops of \<^verbatim>\<open>generate_equipment_logs\<close>, innermost first.\<close>

fun logs_loop ::
  "int list \<Rightarrow> equipment_config \<Rightarrow> timestamp \<Rightarrow> log_entry list \<times> rng \<Rightarrow> exn + log_entry list \<times> rng" where
  "logs_loop [] equip current_date st = Inr st"
| "logs_loop (i # rest) equip current_date (logs, g) =
     bind_exn (random_randint 0 86399 g) (\<lambda>(random_seconds, g1).
     bind_exn (generate_log_entry equip (current_date + timedelta_seconds random_seconds) g1)
       (\<lambda>(log_entry, g2). logs_loop rest equip current_date (logs @ [log_entry], g2)))"

fun equipment_logs_loop ::
  "equipment_config list \<Rightarrow> int \<Rightarrow> timestamp \<Rightarrow> log_entry list \<times> rng \<Rightarrow> exn + log_entry list \<times> rng" where
  "equipment_logs_loop [] logs_per_day current_date st = Inr st"
| "equipment_logs_loop (equip # rest) logs_per_day current_date st =
     bind_exn (logs_loop (py_range logs_per_day) equip current_date st)
       (equipment_logs_loop rest logs_per_day current_date)"

fun log_days_loop ::
  "int list \<Rightarrow> generator \<Rightarrow> int \<Rightarrow> log_entry list \<times> rng \<Rightarrow> exn + log_entry list \<times> rng" where
  "log_days_loop [] self logs_per_day st = Inr st"
| "log_days_loop (day # rest) self logs_per_day st =
     (let current_date = start_date self + timedelta_days day in
      bind_exn (equipment_logs_loop (equipment self) logs_per_day current_date st)
        (log_days_loop rest self logs_per_day))"

definition generate_equipment_logs :: "generator \<Rightarrow> int \<Rightarrow> rng \<Rightarrow> exn + log_entry list \<times> rng" where
  "generate_equipment_logs self logs_per_day g =
     log_days_loop (py_range (num_days self)) self logs_per_day ([], g)"

subsection \<open>Quality metrics\<close>

record quality_metric =
  m_equipment_id :: string
  m_date :: string
  m_location :: string
  m_uptime_hours :: real
  m_downtime_hours :: real
  m_efficiency_percentage :: real
  m_error_count :: int
  m_warning_count :: int
  m_maintenance_required :: bool
  m_last_maintenance_date :: string
  m_next_maintenance_date :: string
  m_production_units :: int
  m_quality_score :: real

text \<open>
  The random fields of one metric, drawn in the order of the dict literal: uptime,
  downtime, efficiency, error count, warning count, maintenance flag, the day offsets
  of the last and the next maintenance, production units, quality score.
\<close>

definition metric_draws ::
  "rng \<Rightarrow> exn + (real \<times> real \<times> real \<times> int \<times> int \<times> bool \<times> int \<times> int \<times> int \<times> real) \<times> rng" where
  "metric_draws g =
     (case random_uniform 20 24 g of (uptime, g1) \<Rightarrow>
      case random_uniform 0 4 g1 of (downtime, g2) \<Rightarrow>
      case random_uniform 85 98 g2 of (efficiency, g3) \<Rightarrow>
      bind_exn (random_randint 0 5 g3) (\<lambda>(errors, g4).
      bind_exn (random_randint 0 15 g4) (\<lambda>(warnings, g5).
      bind_exn (random_choice [True, False] g5) (\<lambda>(maintenance, g6).
      bind_exn (random_randint 1 30 g6) (\<lambda>(last_days, g7).
      bind_exn (random_randint 1 30 g7) (\<lambda>(next_days, g8).
      bind_exn (random_randint 800 1200 g8) (\<lambda>(units, g9).
      case random_uniform 0.9 1.0 g9 of (score, g10) \<Rightarrow>
        Inr ((uptime, downtime, efficiency, errors, warnings, maintenance,
              last_days, next_days, units, score), g10))))))))"

definition metric_record :: "equipment_config \<Rightarrow> timestamp \<Rightarrow> rng \<Rightarrow> exn + quality_metric \<times> rng" where
  "metric_record equip current_date g =
     bind_exn (metric_draws g)
       (\<lambda>((uptime, downtime, efficiency, errors, warnings, maintenance,
            last_days, next_days, units, score), g').
         Inr (\<lparr>m_equipment_id = eq_equipment_id equip,
               m_date = strftime_date current_date,
               m_location = eq_location equip,
               m_uptime_hours = py_round uptime 2,
               m_downtime_hours = py_round downtime 2,
               m_efficiency_percentage = py_round efficiency 2,
               m_error_count = errors,
               m_warning_count = warnings,
               m_maintenance_required = maintenance,
               m_last_maintenance_date = strftime_date (current_date - timedelta_days last_days),
               m_next_maintenance_date = strftime_date (current_date + timedelta_days next_days),
               m_production_units = units,
               m_quality_score = py_round score 3\<rparr>, g'))"

fun equipment_metrics_loop ::
  "equipment_config list \<Rightarrow> timestamp \<Rightarrow> quality_metric list \<times> rng \<Rightarrow> exn + quality_metric list \<times> rng" where
  "equipment_metrics_loop [] current_date st = Inr st"
| "equipment_metrics_loop (equip # rest) current_date (metrics, g) =
     bind_exn (metric_record equip current_date g)
       (\<lambda>(metric, g'). equipment_metrics_loop rest current_date (metrics @ [metric], g'))"

fun metric_days_loop ::
  "int list \<Rightarrow> generator \<Rightarrow> quality_metric list \<times> rng \<Rightarrow> exn + quality_metric list \<times> rng" where
  "metric_days_loop [] self st = Inr st"
| "metric_days_loop (day # rest) self st =
     (let current_date = start_date self + timedelta_days day in
      bind_exn (equipment_metrics_loop (equipment self) current_date st)
        (metric_days_loop rest self))"

definition generate_quality_metrics :: "generator \<Rightarrow> rng \<Rightarrow> exn + quality_metric list \<times> rng" where
  "generate_quality_metrics self g = metric_days_loop (py_range (num_days self)) self ([], g)"

subsection \<open>Saving the data\<close>

text \<open>
  A column of a DataFrame has a dtype. A column built from Python strings is an object
  column, and the \<^verbatim>\<open>.dt\<close> accessor raises AttributeError on every column that is not
  datetime-like. A DataFrame built from an empty list has no column at all, so that
  reading one raises KeyError.
\<close>

datatype series = ObjectSeries "string list" | DatetimeSeries "timestamp list"

definition df_timestamp :: "sensor_reading list \<Rightarrow> exn + series" where
  "df_timestamp df = (if df = [] then Inl KeyError else Inr (ObjectSeries (map r_timestamp df)))"

definition dt_date :: "series \<Rightarrow> exn + int list" where
  "dt_date col = (case col of ObjectSeries xs \<Rightarrow> Inl AttributeError
                            | DatetimeSeries ts \<Rightarrow> Inr (map ts_date ts))"

text \<open>\<^verbatim>\<open>Series.unique()\<close>: the distinct values in order of first appearance.\<close>

definition unique :: "'a list \<Rightarrow> 'a list" where
  "unique xs = rev (remdups (rev xs))"

record summary =
  generation_date :: string
  period_start_date :: string
  period_end_date :: string
  period_num_days :: int
  count_sensor_readings :: nat
  count_equipment_logs :: nat
  count_quality_metrics :: nat
  count_sensors :: nat
  count_equipment :: nat

datatype file_content =
    SensorCsv "sensor_reading list"
  | LogsJson "log_entry list"
  | MetricsCsv "quality_metric list"
  | SummaryJson summary

text \<open>
  The output: the directories made and the files written, in the order of the writes
  (a later write to a path replaces the file). Printing is left out.
\<close>

record files =
  directories :: "string set"
  written :: "(string \<times> file_content) list"

definition makedirs :: "string \<Rightarrow> files \<Rightarrow> files" where
  "makedirs d out = out\<lparr>directories := insert d (directories out)\<rparr>"

definition write_file :: "string \<Rightarrow> file_content \<Rightarrow> files \<Rightarrow> files" where
  "write_file path content out = out\<lparr>written := written out @ [(path, content)]\<rparr>"

text \<open>
  The loop over the dates of the sensor data. Each turn reads the timestamp column's
  dates again to build the mask that selects the day's rows.
\<close>

fun sensor_dates_loop ::
  "int list \<Rightarrow> sensor_reading list \<Rightarrow> string \<Rightarrow> files \<Rightarrow> files \<times> exn option" where
  "sensor_dates_loop [] sensor_df output_dir out = (out, None)"
| "sensor_dates_loop (date # rest) sensor_df output_dir out =
     (case bind_exn (df_timestamp sensor_df) dt_date of
        Inl e \<Rightarrow> (out, Some e)
      | Inr dates \<Rightarrow>
          let date_df = map fst (filter (\<lambda>(row, d). d = date) (zip sensor_df dates));
              date_str = strftime_ymd date;
              date_dir = output_dir @ ''/sensor_data_by_date/'' @ date_str;
              out1 = makedirs date_dir out;
              out2 = write_file (date_dir @ ''/sensor_data_'' @ date_str @ ''.csv'')
                       (SensorCsv date_df) out1
          in sensor_dates_loop rest sensor_df output_dir out2)"

text \<open>
  Grouping the logs by the first ten characters of their timestamp: a new key gets an
  empty list at the end of the dict, then the log is appended to its key's list.
\<close>

fun group_logs ::
  "log_entry list \<Rightarrow> (string \<times> log_entry list) list \<Rightarrow> (string \<times> log_entry list) list" where
  "group_logs [] logs_by_date = logs_by_date"
| "group_logs (entry # rest) logs_by_date =
     (let date = take 10 (l_timestamp entry);
          date_logs = (case map_of logs_by_date date of None \<Rightarrow> [] | Some xs \<Rightarrow> xs)
      in group_logs rest (AList.update date (date_logs @ [entry]) logs_by_date))"

fun log_dates_loop :: "(string \<times> log_entry list) list \<Rightarrow> string \<Rightarrow> files \<Rightarrow> files" where
  "log_dates_loop [] output_dir out = out"
| "log_dates_loop ((date, date_logs) # rest) output_dir out =
     (let date_dir = output_dir @ ''/equipment_logs_by_date/'' @ date;
          out1 = makedirs date_dir out;
          out2 = write_file (date_dir @ ''/equipment_logs_'' @ date @ ''.json'')
                   (LogsJson date_logs) out1
      in log_dates_loop rest output_dir out2)"

text \<open>
  \<^verbatim>\<open>save_data\<close>: the output when it returns or raises, and the exception raised, if any.
  \<open>now\<close> is the reading of the clock for the summary.
\<close>

definition save_data ::
  "generator \<Rightarrow> string \<Rightarrow> timestamp \<Rightarrow> rng \<Rightarrow> files \<Rightarrow> files \<times> exn option" where
  "save_data self output_dir now g out0 =
     (let out1 = makedirs output_dir out0 in
      case generate_sensor_data self 1440 g of
        Inl e \<Rightarrow> (out1, Some e)
      | Inr (sensor_df, g1) \<Rightarrow>
     (let out2 = write_file (output_dir @ ''/sensor_data.csv'') (SensorCsv sensor_df) out1 in
      case bind_exn (df_timestamp sensor_df) dt_date of
        Inl e \<Rightarrow> (out2, Some e)
      | Inr dates \<Rightarrow>
     (case sensor_dates_loop (unique dates) sensor_df output_dir out2 of
        (out3, Some e) \<Rightarrow> (out3, Some e)
      | (out3, None) \<Rightarrow>
     (case generate_equipment_logs self 100 g1 of
        Inl e \<Rightarrow> (out3, Some e)
      | Inr (logs, g2) \<Rightarrow>
     (let out4 = write_file (output_dir @ ''/equipment_logs.json'') (LogsJson logs) out3;
          logs_by_date = group_logs logs [];
          out5 = log_dates_loop logs_by_date output_dir out4
      in
      case generate_quality_metrics self g2 of
        Inl e \<Rightarrow> (out5, Some e)
      | Inr (quality_df, g3) \<Rightarrow>
     (let out6 = write_file (output_dir @ ''/quality_metrics.csv'') (MetricsCsv quality_df) out5;
          summary =
            \<lparr>generation_date = strftime_datetime now,
             period_start_date = strftime_date (start_date self),
             period_end_date = strftime_date (start_date self + timedelta_days (num_days self)),
             period_num_days = num_days self,
             count_sensor_readings = length sensor_df,
             count_equipment_logs = length logs,
             count_quality_metrics = length quality_df,
             count_sensors = length (sensors self),
             count_equipment = length (equipment self)\<rparr>
      in (write_file (output_dir @ ''/data_summary.json'') (SummaryJson summary) out6,
          None)))))))"

text \<open>The files of the two per-date directories among the files written.\<close>

definition is_prefix :: "string \<Rightarrow> string \<Rightarrow> bool" where
  "is_prefix p s = (take (length p) s = p)"

definition per_date_sensor_rows :: "string \<Rightarrow> files \<Rightarrow> sensor_reading list" where
  "per_date_sensor_rows output_dir out =
     concat (map (\<lambda>(path, content). case content of SensorCsv rows \<Rightarrow> rows | _ \<Rightarrow> [])
       (filter (\<lambda>(path, content). is_prefix (output_dir @ ''/sensor_data_by_date/'') path)
          (written out)))"

definition per_date_log_rows :: "string \<Rightarrow> files \<Rightarrow> log_entry list" where
  "per_date_log_rows output_dir out =
     concat (map (\<lambda>(path, content). case content of LogsJson logs \<Rightarrow> logs | _ \<Rightarrow> [])
       (filter (\<lambda>(path, content). is_prefix (output_dir @ ''/equipment_logs_by_date/'') path)
          (written out)))"

subsection \<open>Rows and sample inputs\<close>

text \<open>A row is made by a list of sensors when the loop body yields it for one of them.\<close>

definition made_by :: "sensor_config list \<Rightarrow> sensor_reading \<Rightarrow> bool" where
  "made_by ss r = (\<exists>s \<in> set ss. \<exists>ts g0 g1. sensor_record s ts g0 = Inr (r, g1))"

text \<open>A random source whose every draw of \<^verbatim>\<open>random.random()\<close> is one half.\<close>

definition sample_rng :: rng where
  "sample_rng = \<lparr>py_random = sconst (1 / 2), np_random = sconst 0\<rparr>"

text \<open>The start date 2024-01-01 00:00:00, the default of the program, a Monday.\<close>

definition sample_start :: timestamp where
  "sample_start = 1704067200"

subsection \<open>The realistic value in the specification's words\<close>

text \<open>
  The value as the specification words it, a function of the sensor, the hour, the
  weekday index, the day of the year and two numbers drawn from [0, 1): draw from the
  normal range; add the day-shift offset; scale on a weekend; add the seasonal term.
\<close>

definition realistic_value_spec :: "sensor_config \<Rightarrow> int \<Rightarrow> int \<Rightarrow> int \<Rightarrow> real \<Rightarrow> real \<Rightarrow> real" where
  "realistic_value_spec sensor hour day_index day_of_year u1 u2 =
     (let drawn = fst (normal_range sensor) +
                    (snd (normal_range sensor) - fst (normal_range sensor)) * u1;
          heated = (if type sensor = ''temperature'' \<and> 6 \<le> hour \<and> hour \<le> 18
                    then drawn + (1 + (3 - 1) * u2) else drawn);
          weekend = (if 5 \<le> day_index then heated * 0.95 else heated);
          seasonal = (if type sensor = ''temperature''
                      then weekend + 2 * sin (2 * pi * real_of_int day_of_year / 365)
                      else weekend)
      in seasonal)"

subsection \<open>Maintenance dates\<close>

text \<open>
  A metric made on the timestamp \<open>current_date\<close> carries the renderings of three calendar
  days: the day of \<open>current_date\<close>, a day 1 to 30 days before it and a day 1 to 30 days
  after it.
\<close>

definition maintenance_consistent :: "timestamp \<Rightarrow> quality_metric \<Rightarrow> bool" where
  "maintenance_consistent current_date m =
     (\<exists>k j. 1 \<le> k \<and> k \<le> 30 \<and> 1 \<le> j \<and> j \<le> 30 \<and>
        m_date m = strftime_ymd (ts_date current_date) \<and>
        m_last_maintenance_date m = strftime_ymd (ts_date current_date - k) \<and>
        m_next_maintenance_date m = strftime_ymd (ts_date current_date + j))"

text \<open>The output before anything is written.\<close>

definition no_files :: files where
  "no_files = \<lparr>directories = {}, written = []\<rparr>"

subsection \<open>Dates in range\<close>

text \<open>
  The bounds, in whole seconds, of the timestamps that pandas holds at nanosecond
  resolution (1677-09-21 to 2262-04-11). A generator's dates are in range when every
  timestamp its methods compute lies within them: the start date less 30 days (the last
  maintenance date) up to the start date plus \<open>num_days\<close> and 31 days (the next
  maintenance date, the end date of the summary). The model is of the program on these
  dates; every theorem that says a call returns assumes them.
\<close>

definition min_timestamp :: timestamp where
  "min_timestamp = - 9223372036"

definition max_timestamp :: timestamp where
  "max_timestamp = 9223372036"

definition dates_in_range :: "generator \<Rightarrow> bool" where
  "dates_in_range self =
     (min_timestamp \<le> start_date self - timedelta_days 30 \<and>
      start_date self + timedelta_days (max 0 (num_days self) + 31) \<le> max_timestamp)"

subsection \<open>Construction from a date string\<close>



subsection \<open>The sensor data as a sequence of records\<close>





subsection \<open>Reading a date back\<close>

text \<open>
  The calendar day that a string of the form YYYY-MM-DD denotes, as
  \<^verbatim>\<open>datetime.strptime(s, "%Y-%m-%d")\<close> reads it; \<open>None\<close> for a string of another form.
\<close>

definition nat_of_digits :: "string \<Rightarrow> nat" where
  "nat_of_digits s = foldl (\<lambda>a c. 10 * a + (of_char c - 48)) 0 s"

definition is_digit :: "char \<Rightarrow> bool" where
  "is_digit c = (48 \<le> (of_char c :: nat) \<and> (of_char c :: nat) \<le> 57)"

definition strptime_ymd :: "string \<Rightarrow> int option" where
  "strptime_ymd s =
     (if length s = 10 \<and> s ! 4 = CHR ''-'' \<and> s ! 7 = CHR ''-'' \<and>
         list_all is_digit (take 4 s @ take 2 (drop 5 s) @ drop 8 s)
      then Some (days_from_civil (int (nat_of_digits (take 4 s)))
                   (int (nat_of_digits (take 2 (drop 5 s)))) (int (nat_of_digits (drop 8 s))))
      else None)"

section \<open>Properties\<close>

subsection \<open>Random draws\<close>

lemma random_random_unit: "0 \<le> fst (random_random g) \<and> fst (random_random g) < 1"
  by (simp add: random_random_def frac_lt_1)

lemma random_uniform_fst: "fst (random_uniform a b g) = a + (b - a) * fst (random_random g)"
  by (simp add: random_uniform_def split: prod.splits)

lemma random_uniform_snd: "snd (random_uniform a b g) = snd (random_random g)"
  by (simp add: random_uniform_def split: prod.splits)

lemma random_uniform_bounds:
  assumes "a \<le> b"
  shows "a \<le> fst (random_uniform a b g) \<and> fst (random_uniform a b g) \<le> b"
proof -
  let ?u = "fst (random_random g)"
  have u: "0 \<le> ?u" "?u \<le> 1" using random_random_unit [of g] by auto
  have d: "0 \<le> b - a" using assms by simp
  have lo: "0 \<le> (b - a) * ?u" using d u(1) by (rule mult_nonneg_nonneg)
  have hi: "(b - a) * ?u \<le> (b - a) * 1" using u(2) d by (rule mult_left_mono)
  show ?thesis using lo hi by (simp add: random_uniform_fst)
qed

subsection \<open>Rounding and ranges of draws\<close>

lemma round_half_even_bounds:
  assumes "real_of_int a \<le> s" and "s \<le> real_of_int b"
  shows "a \<le> round_half_even s \<and> round_half_even s \<le> b"
proof -
  have fa: "a \<le> \<lfloor>s\<rfloor>" using assms(1) by (simp add: le_floor_iff)
  have fb: "\<lfloor>s\<rfloor> \<le> b" using assms(2) by (simp add: floor_le_iff)
  have up: "\<lfloor>s\<rfloor> + 1 \<le> b" if "real_of_int \<lfloor>s\<rfloor> < s"
  proof -
    have "real_of_int \<lfloor>s\<rfloor> < real_of_int b" using that assms(2) by linarith
    then show ?thesis by simp
  qed
  show ?thesis
    using fa fb up by (auto simp add: round_half_even_def Let_def)
qed

lemma py_round_bounds:
  assumes "real_of_int a / 10 ^ n \<le> x" and "x \<le> real_of_int b / 10 ^ n"
  shows "real_of_int a / 10 ^ n \<le> py_round x n \<and> py_round x n \<le> real_of_int b / 10 ^ n"
proof -
  have p: "(0::real) < 10 ^ n" by simp
  have 1: "real_of_int a \<le> x * 10 ^ n" using assms(1) p by (simp add: pos_divide_le_eq)
  have 2: "x * 10 ^ n \<le> real_of_int b" using assms(2) p by (simp add: pos_le_divide_eq)
  have r: "a \<le> round_half_even (x * 10 ^ n) \<and> round_half_even (x * 10 ^ n) \<le> b"
    using round_half_even_bounds [OF 1 2] .
  then have "real_of_int a \<le> real_of_int (round_half_even (x * 10 ^ n))"
    "real_of_int (round_half_even (x * 10 ^ n)) \<le> real_of_int b" by simp_all
  then show ?thesis
    using p by (simp add: py_round_def divide_le_cancel)
qed

lemma py_round_quality_range:
  assumes "0.1 \<le> x" and "x \<le> 1"
  shows "0.1 \<le> py_round x 3 \<and> py_round x 3 \<le> 1"
proof -
  have "real_of_int 100 / 10 ^ 3 \<le> x" "x \<le> real_of_int 1000 / 10 ^ 3" using assms by simp_all
  from py_round_bounds [OF this] show ?thesis by simp
qed

lemma calculate_quality_score_range:
  "0.1 \<le> fst (calculate_quality_score sensor val g) \<and> fst (calculate_quality_score sensor val g) \<le> 1"
proof -
  have hi: "0.95 \<le> fst (random_uniform 0.95 1.0 g) \<and> fst (random_uniform 0.95 1.0 g) \<le> 1.0"
    by (rule random_uniform_bounds) simp
  have mid: "0.7 \<le> fst (random_uniform 0.7 0.9 g) \<and> fst (random_uniform 0.7 0.9 g) \<le> 0.9"
    by (rule random_uniform_bounds) simp
  have lo: "0.1 \<le> fst (random_uniform 0.1 0.6 g) \<and> fst (random_uniform 0.1 0.6 g) \<le> 0.6"
    by (rule random_uniform_bounds) simp
  show ?thesis
    using hi mid lo
    by (cases "normal_range sensor"; cases "alert_threshold sensor")
       (auto simp add: calculate_quality_score_def)
qed

lemma randbelow_range:
  assumes "0 < n"
  shows "0 \<le> fst (randbelow n g) \<and> fst (randbelow n g) < n"
proof -
  let ?u = "fst (random_random g)"
  have u: "0 \<le> ?u" "?u < 1" using random_random_unit [of g] by auto
  have n: "0 < real_of_int n" using assms by simp
  have "0 \<le> ?u * real_of_int n" using u(1) n by simp
  then have lo: "0 \<le> \<lfloor>?u * real_of_int n\<rfloor>" by simp
  have "?u * real_of_int n < 1 * real_of_int n" using u(2) n by (rule mult_strict_right_mono)
  then have hi: "\<lfloor>?u * real_of_int n\<rfloor> < n" by (simp add: floor_less_iff)
  show ?thesis using lo hi by (cases "random_random g") (simp add: randbelow_def)
qed

lemma random_choice_mem:
  assumes "random_choice seq g = Inr (x, g')"
  shows "x \<in> set seq"
proof -
  have ne: "seq \<noteq> []" using assms by (auto simp add: random_choice_def)
  then have "0 < int (length seq)" by simp
  from randbelow_range [OF this, of g]
  have k: "nat (fst (randbelow (int (length seq)) g)) < length seq" by linarith
  have "x = seq ! nat (fst (randbelow (int (length seq)) g))"
    using assms ne by (auto simp add: random_choice_def split: prod.splits)
  then show ?thesis using k by simp
qed

lemma random_randint_range:
  assumes "a \<le> b"
  shows "\<exists>k g'. random_randint a b g = Inr (k, g') \<and> a \<le> k \<and> k \<le> b"
proof -
  have "0 < b - a + 1" using assms by simp
  from randbelow_range [OF this, of g]
  show ?thesis using assms by (auto simp add: random_randint_def split: prod.splits)
qed

subsection \<open>The loops of the sensor data\<close>

lemma bind_exn_Inr [simp]: "bind_exn (Inr x) f = f x"
  by (simp add: bind_exn_def)

lemma bind_exn_Inl [simp]: "bind_exn (Inl e) f = Inl e"
  by (simp add: bind_exn_def)

lemma bind_exn_eq_Inr:
  "bind_exn m f = Inr y \<longleftrightarrow> (\<exists>x. m = Inr x \<and> f x = Inr y)"
  by (cases m) simp_all

lemma random_choice_ok:
  "seq \<noteq> [] \<Longrightarrow> \<exists>x g'. random_choice seq g = Inr (x, g')"
  by (simp add: random_choice_def split: prod.splits)

lemma reading_value_ok: "\<exists>x g'. reading_value sensor ts g = Inr (x, g')"
proof -
  obtain b g1 where a: "generate_realistic_value sensor ts g = (b, g1)" by fastforce
  obtain n g2 where b: "np_random_normal 0 0.1 g1 = (n, g2)" by fastforce
  obtain u g3 where c: "random_random g2 = (u, g3)" by fastforce
  show ?thesis
    by (auto simp add: reading_value_def a b c random_choice_def Let_def split: prod.splits)
qed

lemma sensor_record_ok: "\<exists>r g'. sensor_record sensor ts g = Inr (r, g')"
proof -
  obtain b n a v g4 where rv: "reading_value sensor ts g = Inr ((b, n, a, v), g4)"
    using reading_value_ok [of sensor ts g] by (metis prod_cases4)
  obtain q g5 where qs: "calculate_quality_score sensor v g4 = (q, g5)" by fastforce
  show ?thesis
    by (simp add: sensor_record_def rv qs Let_def split: prod.splits)
qed

lemma sensors_loop_rows:
  "\<exists>new g'. sensors_loop ss ts (data, g) = Inr (data @ new, g') \<and> length new = length ss \<and>
     (\<forall>r \<in> set new. \<exists>s \<in> set ss. \<exists>g0 g1. sensor_record s ts g0 = Inr (r, g1))"
proof (induction ss arbitrary: data g)
  case Nil
  show ?case by simp
next
  case (Cons s ss)
  obtain r g1 where r: "sensor_record s ts g = Inr (r, g1)"
    using sensor_record_ok by blast
  obtain new g' where n: "sensors_loop ss ts (data @ [r], g1) = Inr ((data @ [r]) @ new, g')"
    "length new = length ss"
    "\<forall>x \<in> set new. \<exists>s \<in> set ss. \<exists>g0 g1. sensor_record s ts g0 = Inr (x, g1)"
    using Cons.IH [of "data @ [r]" g1] by blast
  have "sensors_loop (s # ss) ts (data, g) = Inr (data @ (r # new), g')"
    using r n(1) by simp
  moreover have "length (r # new) = length (s # ss)" using n(2) by simp
  moreover have "\<forall>x \<in> set (r # new). \<exists>s' \<in> set (s # ss). \<exists>g0 g1. sensor_record s' ts g0 = Inr (x, g1)"
    using r n(3) by auto
  ultimately show ?case by blast
qed

lemma minutes_loop_rows:
  "\<exists>new g'. minutes_loop ms self cd (data, g) = Inr (data @ new, g') \<and>
     length new = length ms * length (sensors self) \<and>
     (\<forall>r \<in> set new. made_by (sensors self) r)"
proof (induction ms arbitrary: data g)
  case Nil
  show ?case by simp
next
  case (Cons m ms)
  obtain n1 g1 where a: "sensors_loop (sensors self) (cd + timedelta_minutes m) (data, g) = Inr (data @ n1, g1)"
    "length n1 = length (sensors self)"
    "\<forall>r \<in> set n1. \<exists>s \<in> set (sensors self). \<exists>g0 g1. sensor_record s (cd + timedelta_minutes m) g0 = Inr (r, g1)"
    using sensors_loop_rows [of "sensors self" "cd + timedelta_minutes m" data g] by blast
  obtain n2 g2 where b: "minutes_loop ms self cd (data @ n1, g1) = Inr ((data @ n1) @ n2, g2)"
    "length n2 = length ms * length (sensors self)"
    "\<forall>r \<in> set n2. made_by (sensors self) r"
    using Cons.IH [of "data @ n1" g1] by blast
  have "minutes_loop (m # ms) self cd (data, g) = Inr (data @ (n1 @ n2), g2)"
    using a(1) b(1) by simp
  moreover have "length (n1 @ n2) = length (m # ms) * length (sensors self)"
    using a(2) b(2) by simp
  moreover have "\<forall>r \<in> set n1. made_by (sensors self) r"
    using a(3) unfolding made_by_def by blast
  then have "\<forall>r \<in> set (n1 @ n2). made_by (sensors self) r"
    using b(3) by auto
  ultimately show ?case by blast
qed

lemma days_loop_rows:
  assumes "records_per_day \<noteq> 0" and "1440 div records_per_day \<noteq> 0"
    and "py_range3 0 1440 (1440 div records_per_day) = Inr minutes"
  shows "\<exists>new g'. days_loop ds self records_per_day (data, g) = Inr (data @ new, g') \<and>
     length new = length ds * (length minutes * length (sensors self)) \<and>
     (\<forall>r \<in> set new. made_by (sensors self) r)"
proof (induction ds arbitrary: data g)
  case Nil
  show ?case by simp
next
  case (Cons d ds)
  obtain n1 g1 where a:
    "minutes_loop minutes self (start_date self + timedelta_days d) (data, g) = Inr (data @ n1, g1)"
    "length n1 = length minutes * length (sensors self)"
    "\<forall>r \<in> set n1. made_by (sensors self) r"
    using minutes_loop_rows [of minutes self "start_date self + timedelta_days d" data g] by blast
  obtain n2 g2 where b: "days_loop ds self records_per_day (data @ n1, g1) = Inr ((data @ n1) @ n2, g2)"
    "length n2 = length ds * (length minutes * length (sensors self))"
    "\<forall>r \<in> set n2. made_by (sensors self) r"
    using Cons.IH [of "data @ n1" g1] by blast
  have "days_loop (d # ds) self records_per_day (data, g) = Inr (data @ (n1 @ n2), g2)"
    using a(1) b(1) assms by (simp add: py_floordiv_def Let_def)
  moreover have "length (n1 @ n2) = length (d # ds) * (length minutes * length (sensors self))"
    using a(2) b(2) by simp
  moreover have "\<forall>r \<in> set (n1 @ n2). made_by (sensors self) r"
    using a(3) b(3) by auto
  ultimately show ?case by blast
qed

lemma days_loop_zero_division:
  "ds \<noteq> [] \<Longrightarrow> days_loop ds self 0 st = Inl ZeroDivisionError"
  by (cases ds) (simp_all add: py_floordiv_def Let_def)

lemma days_loop_zero_step:
  "ds \<noteq> [] \<Longrightarrow> records_per_day \<noteq> 0 \<Longrightarrow> 1440 div records_per_day = 0 \<Longrightarrow>
     days_loop ds self records_per_day st = Inl ValueError"
  by (cases ds) (simp_all add: py_floordiv_def py_range3_def Let_def)

lemma py_range_length [simp]: "length (py_range n) = nat n"
  by (simp add: py_range_def)

subsection \<open>Quality scoring\<close>

text \<open>
  C1: the band of the quality score is chosen by closed-interval comparison. A value in
  the normal range scores \<^verbatim>\<open>uniform(0.95, 1.0)\<close>, in [0.95, 1]; otherwise a value in the
  alert range scores \<^verbatim>\<open>uniform(0.7, 0.9)\<close>, in [0.7, 0.9]; otherwise the score is
  \<^verbatim>\<open>uniform(0.1, 0.6)\<close>, in [0.1, 0.6]. A value equal to the upper end of the normal range
  is in the high band.
\<close>

theorem quality_score_band_selection:
  "(fst (normal_range sensor) \<le> val \<and> val \<le> snd (normal_range sensor) \<longrightarrow>
      calculate_quality_score sensor val g = random_uniform 0.95 1.0 g \<and>
      0.95 \<le> fst (calculate_quality_score sensor val g) \<and>
      fst (calculate_quality_score sensor val g) \<le> 1.0) \<and>
   (\<not> (fst (normal_range sensor) \<le> val \<and> val \<le> snd (normal_range sensor)) \<and>
    fst (alert_threshold sensor) \<le> val \<and> val \<le> snd (alert_threshold sensor) \<longrightarrow>
      calculate_quality_score sensor val g = random_uniform 0.7 0.9 g \<and>
      0.7 \<le> fst (calculate_quality_score sensor val g) \<and>
      fst (calculate_quality_score sensor val g) \<le> 0.9) \<and>
   (\<not> (fst (normal_range sensor) \<le> val \<and> val \<le> snd (normal_range sensor)) \<and>
    \<not> (fst (alert_threshold sensor) \<le> val \<and> val \<le> snd (alert_threshold sensor)) \<longrightarrow>
      calculate_quality_score sensor val g = random_uniform 0.1 0.6 g \<and>
      0.1 \<le> fst (calculate_quality_score sensor val g) \<and>
      fst (calculate_quality_score sensor val g) \<le> 0.6) \<and>
   (fst (normal_range sensor) \<le> snd (normal_range sensor) \<longrightarrow>
      calculate_quality_score sensor (snd (normal_range sensor)) g = random_uniform 0.95 1.0 g \<and>
      0.95 \<le> fst (calculate_quality_score sensor (snd (normal_range sensor)) g) \<and>
      fst (calculate_quality_score sensor (snd (normal_range sensor)) g) \<le> 1.0)"
proof -
  have hi: "0.95 \<le> fst (random_uniform 0.95 1.0 g) \<and> fst (random_uniform 0.95 1.0 g) \<le> 1.0"
    by (rule random_uniform_bounds) simp
  have mid: "0.7 \<le> fst (random_uniform 0.7 0.9 g) \<and> fst (random_uniform 0.7 0.9 g) \<le> 0.9"
    by (rule random_uniform_bounds) simp
  have lo: "0.1 \<le> fst (random_uniform 0.1 0.6 g) \<and> fst (random_uniform 0.1 0.6 g) \<le> 0.6"
    by (rule random_uniform_bounds) simp
  show ?thesis
    using hi mid lo
    by (cases "normal_range sensor"; cases "alert_threshold sensor")
       (simp add: calculate_quality_score_def)
qed

theorem quality_score_band_selection_witness:
  "fst (normal_range (create_sensor_config ! 0)) \<le> snd (normal_range (create_sensor_config ! 0)) \<and>
   snd (normal_range (create_sensor_config ! 0)) = 25 \<and>
   calculate_quality_score (create_sensor_config ! 0) 25 sample_rng = random_uniform 0.95 1.0 sample_rng \<and>
   fst (calculate_quality_score (create_sensor_config ! 0) 25 sample_rng) = 0.975"
proof -
  have r: "fst (normal_range (create_sensor_config ! 0)) \<le> snd (normal_range (create_sensor_config ! 0))"
    "snd (normal_range (create_sensor_config ! 0)) = 25"
    by (simp_all add: create_sensor_config_def)
  have f: "frac (1 / 2 :: real) = 1 / 2" by (simp add: frac_eq)
  have v: "fst (random_uniform 0.95 1.0 sample_rng) = 0.975"
    by (simp add: random_uniform_def random_random_def sample_rng_def f)
  show ?thesis
    using r v quality_score_band_selection [of "create_sensor_config ! 0" 25 sample_rng]
    by simp
qed

subsection \<open>Row counts of the sensor data\<close>

lemma py_range3_minutes:
  assumes "0 < step"
  shows "\<exists>minutes. py_range3 0 1440 step = Inr minutes \<and> length minutes = nat ((1439 + step) div step)"
  using assms by (simp add: py_range3_def algebra_simps)


lemma py_range3_ok:
  "step \<noteq> 0 \<Longrightarrow> \<exists>minutes. py_range3 start stop step = Inr minutes"
  by (cases "0 < step") (simp_all add: py_range3_def)

lemma generate_sensor_data_rows:
  assumes "records_per_day \<noteq> 0" and "1440 div records_per_day \<noteq> 0"
    and "py_range3 0 1440 (1440 div records_per_day) = Inr minutes"
  shows "\<exists>data g'. generate_sensor_data self records_per_day g = Inr (data, g') \<and>
     length data = nat (num_days self) * (length minutes * length (sensors self)) \<and>
     (\<forall>r \<in> set data. made_by (sensors self) r)"
  using days_loop_rows [OF assms, of "py_range (num_days self)" self "[]" g]
  by (simp add: generate_sensor_data_def)

lemma generate_sensor_data_made_by:
  assumes "generate_sensor_data self records_per_day g = Inr (data, g')"
  shows "\<forall>r \<in> set data. made_by (sensors self) r"
proof (cases "py_range (num_days self) = []")
  case True
  then have "data = []" using assms by (simp add: generate_sensor_data_def)
  then show ?thesis by simp
next
  case False
  have nz: "records_per_day \<noteq> 0"
    using assms False days_loop_zero_division [of "py_range (num_days self)" self "([], g)"]
    by (auto simp add: generate_sensor_data_def)
  have st: "1440 div records_per_day \<noteq> 0"
    using assms False nz
      days_loop_zero_step [of "py_range (num_days self)" records_per_day self "([], g)"]
    by (auto simp add: generate_sensor_data_def)
  obtain minutes where m: "py_range3 0 1440 (1440 div records_per_day) = Inr minutes"
    using py_range3_ok [OF st] by blast
  from generate_sensor_data_rows [OF nz st m, of self g] assms show ?thesis by auto
qed

text \<open>
  C9: for every \<^verbatim>\<open>records_per_day\<close> above 1440 the quotient \<^verbatim>\<open>1440 // records_per_day\<close> is 0,
  the range of minutes has a zero step, and \<^verbatim>\<open>generate_sensor_data\<close> raises ValueError
  instead of returning a frame, on every generator of at least one day (the day loop
  evaluates the range; with no day to generate it never runs, and the frame is empty).
\<close>

theorem generate_sensor_data_step_zero:
  "(1440 < records_per_day \<and> 1 \<le> num_days self \<longrightarrow>
      py_floordiv 1440 records_per_day = Inr 0 \<and>
      py_range3 0 1440 0 = Inl ValueError \<and>
      generate_sensor_data self records_per_day g = Inl ValueError) \<and>
   (num_days self \<le> 0 \<longrightarrow> generate_sensor_data self records_per_day g = Inr ([], g))"
proof -
  have "generate_sensor_data self records_per_day g = Inl ValueError"
    if "1440 < records_per_day" "1 \<le> num_days self"
  proof -
    have ne: "py_range (num_days self) \<noteq> []"
      using that(2) by (simp add: py_range_def)
    have z: "1440 div records_per_day = 0" using that(1) by simp
    show ?thesis
      using days_loop_zero_step [OF ne _ z, of self "([], g)"] that(1)
      by (simp add: generate_sensor_data_def)
  qed
  moreover have "py_floordiv 1440 records_per_day = Inr 0" if "1440 < records_per_day"
    using that by (simp add: py_floordiv_def)
  moreover have "py_range3 0 1440 0 = Inl ValueError" by (simp add: py_range3_def)
  moreover have "generate_sensor_data self records_per_day g = Inr ([], g)" if "num_days self \<le> 0"
    using that by (simp add: generate_sensor_data_def py_range_def)
  ultimately show ?thesis by blast
qed

theorem generate_sensor_data_step_zero_witness:
  "(1440::int) < 2000 \<and> 1 \<le> num_days (init sample_start 1) \<and>
   generate_sensor_data (init sample_start 1) 2000 sample_rng = Inl ValueError"
proof -
  have a: "(1440::int) < 2000" "1 \<le> num_days (init sample_start 1)"
    by (simp_all add: init_def)
  show ?thesis
    using a generate_sensor_data_step_zero [of 2000 "init sample_start 1" sample_rng]
    by simp
qed

subsection \<open>The fields of a reading\<close>

lemma reading_value_cases:
  assumes "reading_value sensor ts g0 = Inr ((base, noise, a, val), g4)"
  shows "base = fst (generate_realistic_value sensor ts g0) \<and>
     noise = fst (np_random_normal 0 0.1 (snd (generate_realistic_value sensor ts g0))) \<and>
     a = (fst (random_random (snd (np_random_normal 0 0.1
            (snd (generate_realistic_value sensor ts g0))))) < error_rate sensor) \<and>
     (a \<longrightarrow> (\<exists>f \<in> {- 2, - 1.5, 1.5, 2}. val = base * f)) \<and>
     (\<not> a \<longrightarrow> val = base + noise)"
proof -
  obtain b g1 where p: "generate_realistic_value sensor ts g0 = (b, g1)" by fastforce
  obtain n g2 where q: "np_random_normal 0 0.1 g1 = (n, g2)" by fastforce
  obtain u g3 where r: "random_random g2 = (u, g3)" by fastforce
  show ?thesis
  proof (cases "u < error_rate sensor")
    case True
    then obtain f where f: "random_choice [- 2, - 1.5, 1.5, 2 :: real] g3 = Inr (f, g4)"
      "base = b" "noise = n" "a" "val = b * f"
      using assms p q r
      by (auto simp add: reading_value_def Let_def bind_exn_eq_Inr)
    have "f \<in> set [- 2, - 1.5, 1.5, 2 :: real]" using f(1) by (rule random_choice_mem)
    then have "f \<in> {- 2, - 1.5, 1.5, 2}" by simp
    then show ?thesis using True f p q r by auto
  next
    case False
    then show ?thesis using assms p q r by (simp add: reading_value_def Let_def)
  qed
qed

lemma sensor_record_fields:
  assumes "sensor_record sensor ts g0 = Inr (r, g1)"
  shows "\<exists>base noise val g4.
     reading_value sensor ts g0 = Inr ((base, noise, r_is_anomaly r, val), g4) \<and>
     r_value r = py_round val 3 \<and>
     r_quality_score r = py_round (fst (calculate_quality_score sensor val g4)) 3 \<and>
     r_status r = (if r_is_anomaly r then ''error'' else ''normal'')"
proof -
  obtain base noise a val g4 where rv: "reading_value sensor ts g0 = Inr ((base, noise, a, val), g4)"
    using reading_value_ok [of sensor ts g0] by (metis prod_cases4)
  obtain q g5 where qs: "calculate_quality_score sensor val g4 = (q, g5)" by fastforce
  have "r_is_anomaly r = a \<and> r_value r = py_round val 3 \<and> r_quality_score r = py_round q 3 \<and>
     r_status r = (if a then ''error'' else ''normal'')"
    using assms rv qs
    by (auto simp add: sensor_record_def Let_def split: if_splits prod.splits)
  then show ?thesis using rv qs by auto
qed

lemma made_by_quality_score:
  assumes "made_by ss r"
  shows "0.1 \<le> r_quality_score r \<and> r_quality_score r \<le> 1"
proof -
  obtain s ts g0 g1 where "sensor_record s ts g0 = Inr (r, g1)"
    using assms unfolding made_by_def by blast
  from sensor_record_fields [OF this]
  obtain val g4 where q: "r_quality_score r = py_round (fst (calculate_quality_score s val g4)) 3"
    by blast
  have "0.1 \<le> fst (calculate_quality_score s val g4) \<and> fst (calculate_quality_score s val g4) \<le> 1"
    by (rule calculate_quality_score_range)
  then show ?thesis
    unfolding q using py_round_quality_range by blast
qed

lemma sample_generate_sensor_data:
  "\<exists>data g'. generate_sensor_data (init sample_start 1) 1440 sample_rng = Inr (data, g') \<and>
     data \<noteq> []"
proof -
  obtain minutes where m: "py_range3 0 1440 (1440 div 1440) = Inr minutes" "length minutes = 1440"
    using py_range3_minutes [of 1] by auto
  have "num_days (init sample_start 1) = 1" "length (sensors (init sample_start 1)) = 5"
    by (simp_all add: init_def create_sensor_config_def)
  then show ?thesis
    using generate_sensor_data_rows [of 1440 minutes "init sample_start 1" sample_rng] m
    by auto
qed

subsection \<open>Quality scores of the readings\<close>

text \<open>
  C6: every reading that \<^verbatim>\<open>generate_sensor_data\<close> returns has a quality score, rounded to
  three decimals, in the closed interval [0.1, 1.0].
\<close>

theorem generate_sensor_data_quality_score:
  "generate_sensor_data self records_per_day g = Inr (data, g') \<longrightarrow>
     (\<forall>r \<in> set data. 0.1 \<le> r_quality_score r \<and> r_quality_score r \<le> 1.0)"
proof
  assume "generate_sensor_data self records_per_day g = Inr (data, g')"
  then have "\<forall>r \<in> set data. made_by (sensors self) r"
    by (rule generate_sensor_data_made_by)
  then show "\<forall>r \<in> set data. 0.1 \<le> r_quality_score r \<and> r_quality_score r \<le> 1.0"
    using made_by_quality_score by auto
qed

theorem generate_sensor_data_quality_score_witness:
  "\<exists>data g'. generate_sensor_data (init sample_start 1) 1440 sample_rng = Inr (data, g') \<and>
     data \<noteq> [] \<and> 0.1 \<le> r_quality_score (hd data) \<and> r_quality_score (hd data) \<le> 1.0"
proof -
  obtain data g' where d:
    "generate_sensor_data (init sample_start 1) 1440 sample_rng = Inr (data, g')" "data \<noteq> []"
    using sample_generate_sensor_data by blast
  have "hd data \<in> set data" using d(2) by simp
  then have "0.1 \<le> r_quality_score (hd data) \<and> r_quality_score (hd data) \<le> 1.0"
    using d(1) generate_sensor_data_quality_score [of "init sample_start 1" 1440 sample_rng data g']
    by blast
  then show ?thesis using d by blast
qed

subsection \<open>Unchecked records per day\<close>



subsection \<open>The realistic value\<close>

text \<open>
  C5: \<^verbatim>\<open>_generate_realistic_value\<close> computes, in this order: a uniform draw from the normal
  range; for a temperature sensor at an hour from 6 to 18, plus a uniform offset from
  [1, 3]; on a weekday index of 5 or more, the value so far times 0.95; for a temperature
  sensor, plus \<open>2 sin (2 pi day_of_year / 365)\<close>. The two uniform numbers are the first
  two draws of \<^verbatim>\<open>random.random()\<close>, each in [0, 1), and the second is drawn only when the
  offset is added.
\<close>

theorem generate_realistic_value_order:
  "fst (generate_realistic_value sensor ts g) =
     realistic_value_spec sensor (ts_hour ts) (weekday ts) (tm_yday ts)
       (fst (random_random g)) (fst (random_random (snd (random_random g)))) \<and>
   snd (generate_realistic_value sensor ts g) =
     (if type sensor = ''temperature'' \<and> 6 \<le> ts_hour ts \<and> ts_hour ts \<le> 18
      then snd (random_random (snd (random_random g))) else snd (random_random g)) \<and>
   0 \<le> fst (random_random g) \<and> fst (random_random g) < 1 \<and>
   0 \<le> fst (random_random (snd (random_random g))) \<and>
   fst (random_random (snd (random_random g))) < 1"
proof -
  obtain lo hi where n: "normal_range sensor = (lo, hi)" by fastforce
  obtain u1 g1 where a: "random_random g = (u1, g1)" by fastforce
  obtain u2 g2 where b: "random_random g1 = (u2, g2)" by fastforce
  have v: "fst (generate_realistic_value sensor ts g) =
     realistic_value_spec sensor (ts_hour ts) (weekday ts) (tm_yday ts) u1 u2"
    by (simp add: generate_realistic_value_def realistic_value_spec_def random_uniform_def
        n a b Let_def)
  have s: "snd (generate_realistic_value sensor ts g) =
     (if type sensor = ''temperature'' \<and> 6 \<le> ts_hour ts \<and> ts_hour ts \<le> 18 then g2 else g1)"
    by (simp add: generate_realistic_value_def random_uniform_def n a b Let_def)
  show ?thesis
    using v s random_random_unit [of g] random_random_unit [of g1] by (simp add: a b)
qed

theorem generate_realistic_value_order_witness:
  "ts_hour 1704542400 = 12 \<and> weekday 1704542400 = 5 \<and> tm_yday 1704542400 = 6 \<and>
   type (create_sensor_config ! 0) = ''temperature'' \<and>
   fst (generate_realistic_value (create_sensor_config ! 0) 1704542400 sample_rng) =
     (20 + (25 - 20) * (1 / 2) + (1 + (3 - 1) * (1 / 2))) * 0.95 + 2 * sin (2 * pi * 6 / 365)"
proof -
  have f: "frac (1 / 2 :: real) = 1 / 2" by (simp add: frac_eq)
  have t: "ts_hour 1704542400 = 12" "weekday 1704542400 = 5" "tm_yday 1704542400 = 6"
    by code_simp+
  have c: "type (create_sensor_config ! 0) = ''temperature''"
    "normal_range (create_sensor_config ! 0) = (20, 25)"
    by (simp_all add: create_sensor_config_def)
  have u: "fst (random_random sample_rng) = 1 / 2"
    "fst (random_random (snd (random_random sample_rng))) = 1 / 2"
    by (simp_all add: random_random_def sample_rng_def f)
  show ?thesis
    using generate_realistic_value_order [of "create_sensor_config ! 0" 1704542400 sample_rng]
    by (simp add: t c u realistic_value_spec_def Let_def)
qed

subsection \<open>The loops of the equipment logs\<close>

lemma np_random_choice_level:
  "\<exists>lv g'. np_random_choice (map fst level_weights) (map snd level_weights) g = Inr (lv, g') \<and>
     lv \<in> {''INFO'', ''WARNING'', ''ERROR'', ''DEBUG''}"
proof -
  let ?u = "frac (shd (np_random g))"
  let ?idx = "length (filter (\<lambda>c. c \<le> ?u) (cumsum 0 (map snd level_weights)))"
  have u: "?u < 1" by (rule frac_lt_1)
  have "?idx < 4" using u by (simp add: level_weights_def)
  moreover have "n \<in> {0, 1, 2, 3}" if "n < 4" for n :: nat
    using that by auto
  ultimately have "?idx \<in> {0, 1, 2, 3}" by blast
  then have m: "map fst level_weights ! ?idx \<in> {''INFO'', ''WARNING'', ''ERROR'', ''DEBUG''}"
    by (auto simp add: level_weights_def)
  have "np_random_choice (map fst level_weights) (map snd level_weights) g =
      Inr (map fst level_weights ! ?idx, g\<lparr>np_random := stl (np_random g)\<rparr>)"
    unfolding np_random_choice_def Let_def by (simp add: level_weights_def)
  then show ?thesis using m by blast
qed

lemma log_templates_level:
  assumes "lv \<in> {''INFO'', ''WARNING'', ''ERROR'', ''DEBUG''}"
  shows "\<exists>templates. dict_getitem log_templates lv = Inr templates \<and> templates \<noteq> []"
  using assms by (auto simp add: dict_getitem_def log_templates_def)

lemma generate_log_entry_ok: "\<exists>entry g'. generate_log_entry equip ts g = Inr (entry, g')"
proof -
  obtain lv g1 where a:
    "np_random_choice (map fst level_weights) (map snd level_weights) g = Inr (lv, g1)"
    "lv \<in> {''INFO'', ''WARNING'', ''ERROR'', ''DEBUG''}"
    using np_random_choice_level by blast
  obtain templates where b: "dict_getitem log_templates lv = Inr templates" "templates \<noteq> []"
    using log_templates_level [OF a(2)] by blast
  show ?thesis
    using b(2)
    by (simp add: generate_log_entry_def a(1) b(1) random_choice_def random_randint_def
        Let_def split: prod.splits)
qed

lemma logs_loop_rows:
  "\<exists>new g'. logs_loop ns equip cd (logs, g) = Inr (logs @ new, g') \<and> length new = length ns"
proof (induction ns arbitrary: logs g)
  case Nil
  show ?case by simp
next
  case (Cons n ns)
  obtain k g1 where k: "random_randint 0 86399 g = Inr (k, g1)"
    using random_randint_range [of 0 86399 g] by auto
  obtain entry g2 where e:
    "generate_log_entry equip (cd + timedelta_seconds k) g1 = Inr (entry, g2)"
    using generate_log_entry_ok by blast
  obtain new g' where n: "logs_loop ns equip cd (logs @ [entry], g2) = Inr ((logs @ [entry]) @ new, g')"
    "length new = length ns"
    using Cons.IH [of "logs @ [entry]" g2] by blast
  have "logs_loop (n # ns) equip cd (logs, g) = Inr (logs @ (entry # new), g')"
    using k e n(1) by simp
  moreover have "length (entry # new) = length (n # ns)" using n(2) by simp
  ultimately show ?case by blast
qed

lemma equipment_logs_loop_rows:
  "\<exists>new g'. equipment_logs_loop es logs_per_day cd (logs, g) = Inr (logs @ new, g') \<and>
     length new = length es * nat logs_per_day"
proof (induction es arbitrary: logs g)
  case Nil
  show ?case by simp
next
  case (Cons e es)
  obtain n1 g1 where a: "logs_loop (py_range logs_per_day) e cd (logs, g) = Inr (logs @ n1, g1)"
    "length n1 = nat logs_per_day"
    using logs_loop_rows [of "py_range logs_per_day" e cd logs g] by auto
  obtain n2 g2 where b:
    "equipment_logs_loop es logs_per_day cd (logs @ n1, g1) = Inr ((logs @ n1) @ n2, g2)"
    "length n2 = length es * nat logs_per_day"
    using Cons.IH [of "logs @ n1" g1] by blast
  have "equipment_logs_loop (e # es) logs_per_day cd (logs, g) = Inr (logs @ (n1 @ n2), g2)"
    using a(1) b(1) by simp
  moreover have "length (n1 @ n2) = length (e # es) * nat logs_per_day"
    using a(2) b(2) by simp
  ultimately show ?case by blast
qed

lemma log_days_loop_rows:
  "\<exists>new g'. log_days_loop ds self logs_per_day (logs, g) = Inr (logs @ new, g') \<and>
     length new = length ds * (length (equipment self) * nat logs_per_day)"
proof (induction ds arbitrary: logs g)
  case Nil
  show ?case by simp
next
  case (Cons d ds)
  obtain n1 g1 where a:
    "equipment_logs_loop (equipment self) logs_per_day (start_date self + timedelta_days d) (logs, g)
       = Inr (logs @ n1, g1)"
    "length n1 = length (equipment self) * nat logs_per_day"
    using equipment_logs_loop_rows by blast
  obtain n2 g2 where b:
    "log_days_loop ds self logs_per_day (logs @ n1, g1) = Inr ((logs @ n1) @ n2, g2)"
    "length n2 = length ds * (length (equipment self) * nat logs_per_day)"
    using Cons.IH [of "logs @ n1" g1] by blast
  have "log_days_loop (d # ds) self logs_per_day (logs, g) = Inr (logs @ (n1 @ n2), g2)"
    using a(1) b(1) by (simp add: Let_def)
  moreover have "length (n1 @ n2) = length (d # ds) * (length (equipment self) * nat logs_per_day)"
    using a(2) b(2) by simp
  ultimately show ?case by blast
qed

lemma generate_equipment_logs_length:
  "\<exists>logs g'. generate_equipment_logs self logs_per_day g = Inr (logs, g') \<and>
     length logs = nat (num_days self) * (length (equipment self) * nat logs_per_day)"
  using log_days_loop_rows [of "py_range (num_days self)" self logs_per_day "[]" g]
  by (simp add: generate_equipment_logs_def)

subsection \<open>The loops of the quality metrics\<close>

lemma ts_date_shift: "ts_date (ts + timedelta_days d) = ts_date ts + d"
  "ts_date (ts - timedelta_days d) = ts_date ts - d"
proof -
  show "ts_date (ts + timedelta_days d) = ts_date ts + d"
    by (simp add: ts_date_def timedelta_days_def)
  have "(ts + (- d) * 86400) div 86400 = ts div 86400 + (- d)"
    by simp
  moreover have "ts - d * 86400 = ts + (- d) * 86400" by simp
  ultimately have "(ts - d * 86400) div 86400 = ts div 86400 - d"
    by (simp only: diff_conv_add_uminus)
  then show "ts_date (ts - timedelta_days d) = ts_date ts - d"
    by (simp only: ts_date_def timedelta_days_def)
qed

lemma metric_draws_ok:
  "\<exists>uptime downtime efficiency errors warnings maintenance last_days next_days units score g'.
     metric_draws g = Inr ((uptime, downtime, efficiency, errors, warnings, maintenance,
       last_days, next_days, units, score), g') \<and>
     1 \<le> last_days \<and> last_days \<le> 30 \<and> 1 \<le> next_days \<and> next_days \<le> 30"
proof -
  obtain uptime g1 where a1: "random_uniform 20 24 g = (uptime, g1)" by fastforce
  obtain downtime g2 where a2: "random_uniform 0 4 g1 = (downtime, g2)" by fastforce
  obtain efficiency g3 where a3: "random_uniform 85 98 g2 = (efficiency, g3)" by fastforce
  obtain errors g4 where a4: "random_randint 0 5 g3 = Inr (errors, g4)"
    using random_randint_range [of 0 5 g3] by auto
  obtain warnings g5 where a5: "random_randint 0 15 g4 = Inr (warnings, g5)"
    using random_randint_range [of 0 15 g4] by auto
  obtain maintenance g6 where a6: "random_choice [True, False] g5 = Inr (maintenance, g6)"
    using random_choice_ok [of "[True, False]" g5] by auto
  obtain last_days g7 where a7: "random_randint 1 30 g6 = Inr (last_days, g7)"
    "1 \<le> last_days" "last_days \<le> 30"
    using random_randint_range [of 1 30 g6] by auto
  obtain next_days g8 where a8: "random_randint 1 30 g7 = Inr (next_days, g8)"
    "1 \<le> next_days" "next_days \<le> 30"
    using random_randint_range [of 1 30 g7] by auto
  obtain units g9 where a9: "random_randint 800 1200 g8 = Inr (units, g9)"
    using random_randint_range [of 800 1200 g8] by auto
  obtain score g10 where a10: "random_uniform (9 / 10) 1 g9 = (score, g10)" by fastforce
  have "metric_draws g = Inr ((uptime, downtime, efficiency, errors, warnings, maintenance,
       last_days, next_days, units, score), g10)"
    by (simp add: metric_draws_def a1 a2 a3 a4 a5 a6 a7(1) a8(1) a9 a10)
  then show ?thesis using a7(2,3) a8(2,3) by blast
qed

lemma metric_record_ok:
  "\<exists>m g'. metric_record equip current_date g = Inr (m, g') \<and>
     maintenance_consistent current_date m"
proof -
  obtain uptime downtime efficiency errors warnings maintenance last_days next_days units score g'
    where d: "metric_draws g = Inr ((uptime, downtime, efficiency, errors, warnings, maintenance,
       last_days, next_days, units, score), g')"
      and r: "1 \<le> last_days" "last_days \<le> 30" "1 \<le> next_days" "next_days \<le> 30"
    using metric_draws_ok [of g] by blast
  have "\<exists>m. metric_record equip current_date g = Inr (m, g') \<and>
    m_date m = strftime_date current_date \<and>
    m_last_maintenance_date m = strftime_date (current_date - timedelta_days last_days) \<and>
    m_next_maintenance_date m = strftime_date (current_date + timedelta_days next_days)"
    unfolding metric_record_def d by simp
  then obtain m where m: "metric_record equip current_date g = Inr (m, g')"
    "m_date m = strftime_date current_date"
    "m_last_maintenance_date m = strftime_date (current_date - timedelta_days last_days)"
    "m_next_maintenance_date m = strftime_date (current_date + timedelta_days next_days)"
    by blast
  have l: "m_last_maintenance_date m = strftime_ymd (ts_date current_date - last_days)"
    unfolding m(3) strftime_date_def ts_date_shift ..
  have n: "m_next_maintenance_date m = strftime_ymd (ts_date current_date + next_days)"
    unfolding m(4) strftime_date_def ts_date_shift ..
  have c: "m_date m = strftime_ymd (ts_date current_date)"
    unfolding m(2) strftime_date_def ..
  have "1 \<le> last_days \<and> last_days \<le> 30 \<and> 1 \<le> next_days \<and> next_days \<le> 30 \<and>
        m_date m = strftime_ymd (ts_date current_date) \<and>
        m_last_maintenance_date m = strftime_ymd (ts_date current_date - last_days) \<and>
        m_next_maintenance_date m = strftime_ymd (ts_date current_date + next_days)"
    using r l n c by blast
  then have "maintenance_consistent current_date m"
    unfolding maintenance_consistent_def by blast
  then show ?thesis using m(1) by blast
qed

lemma equipment_metrics_loop_rows:
  "\<exists>new g'. equipment_metrics_loop es cd (metrics, g) = Inr (metrics @ new, g') \<and>
     length new = length es \<and> (\<forall>m \<in> set new. maintenance_consistent cd m)"
proof (induction es arbitrary: metrics g)
  case Nil
  show ?case by simp
next
  case (Cons e es)
  obtain m g1 where a: "metric_record e cd g = Inr (m, g1)" "maintenance_consistent cd m"
    using metric_record_ok by blast
  obtain new g' where b:
    "equipment_metrics_loop es cd (metrics @ [m], g1) = Inr ((metrics @ [m]) @ new, g')"
    "length new = length es" "\<forall>x \<in> set new. maintenance_consistent cd x"
    using Cons.IH [of "metrics @ [m]" g1] by blast
  have "equipment_metrics_loop (e # es) cd (metrics, g) = Inr (metrics @ (m # new), g')"
    using a(1) b(1) by simp
  moreover have "length (m # new) = length (e # es)" using b(2) by simp
  moreover have "\<forall>x \<in> set (m # new). maintenance_consistent cd x" using a(2) b(3) by simp
  ultimately show ?case by blast
qed

lemma metric_days_loop_rows:
  "\<exists>new g'. metric_days_loop ds self (metrics, g) = Inr (metrics @ new, g') \<and>
     length new = length ds * length (equipment self) \<and>
     (\<forall>m \<in> set new. \<exists>cd. maintenance_consistent cd m)"
proof (induction ds arbitrary: metrics g)
  case Nil
  show ?case by simp
next
  case (Cons d ds)
  obtain n1 g1 where a:
    "equipment_metrics_loop (equipment self) (start_date self + timedelta_days d) (metrics, g)
       = Inr (metrics @ n1, g1)"
    "length n1 = length (equipment self)"
    "\<forall>m \<in> set n1. maintenance_consistent (start_date self + timedelta_days d) m"
    using equipment_metrics_loop_rows by blast
  obtain n2 g2 where b:
    "metric_days_loop ds self (metrics @ n1, g1) = Inr ((metrics @ n1) @ n2, g2)"
    "length n2 = length ds * length (equipment self)"
    "\<forall>m \<in> set n2. \<exists>cd. maintenance_consistent cd m"
    using Cons.IH [of "metrics @ n1" g1] by blast
  have "metric_days_loop (d # ds) self (metrics, g) = Inr (metrics @ (n1 @ n2), g2)"
    using a(1) b(1) by (simp add: Let_def)
  moreover have "length (n1 @ n2) = length (d # ds) * length (equipment self)"
    using a(2) b(2) by simp
  moreover have "\<forall>m \<in> set (n1 @ n2). \<exists>cd. maintenance_consistent cd m"
    using a(3) b(3) by auto
  ultimately show ?case by blast
qed

lemma generate_quality_metrics_rows:
  "\<exists>metrics g'. generate_quality_metrics self g = Inr (metrics, g') \<and>
     length metrics = nat (num_days self) * length (equipment self) \<and>
     (\<forall>m \<in> set metrics. \<exists>cd. maintenance_consistent cd m)"
  using metric_days_loop_rows [of "py_range (num_days self)" self "[]" g]
  by (simp add: generate_quality_metrics_def)

subsection \<open>Saving the data\<close>

lemma timestamp_dates_raise:
  "bind_exn (df_timestamp sensor_df) dt_date =
     Inl (if sensor_df = [] then KeyError else AttributeError)"
  by (simp add: df_timestamp_def dt_date_def)

lemma save_data_raises:
  assumes "generate_sensor_data self 1440 g = Inr (sensor_df, g1)"
  shows "save_data self output_dir now g out0 =
     (write_file (output_dir @ ''/sensor_data.csv'') (SensorCsv sensor_df)
        (makedirs output_dir out0),
      Some (if sensor_df = [] then KeyError else AttributeError))"
  unfolding save_data_def Let_def assms timestamp_dates_raise by simp

lemma is_prefix_by_date:
  "\<not> is_prefix (output_dir @ ''/sensor_data_by_date/'') (output_dir @ ''/sensor_data.csv'')"
  "\<not> is_prefix (output_dir @ ''/equipment_logs_by_date/'') (output_dir @ ''/sensor_data.csv'')"
  by (simp_all add: is_prefix_def)

lemma save_data_no_partition:
  assumes "generate_sensor_data self 1440 g = Inr (sensor_df, g1)"
  shows "map fst (written (fst (save_data self output_dir now g no_files))) =
           [output_dir @ ''/sensor_data.csv''] \<and>
         per_date_sensor_rows output_dir (fst (save_data self output_dir now g no_files)) = [] \<and>
         per_date_log_rows output_dir (fst (save_data self output_dir now g no_files)) = []"
  unfolding save_data_raises [OF assms]
  by (simp add: per_date_sensor_rows_def per_date_log_rows_def write_file_def makedirs_def
      no_files_def is_prefix_by_date)

text \<open>
  The grouping of the logs by date, taken alone, keeps every entry: the list under a date
  is the sub-list of the logs whose timestamp starts with that date, in order.
\<close>

lemma group_logs_map_of:
  "map_of (group_logs logs d) k =
     (if map_of d k = None \<and> filter (\<lambda>e. take 10 (l_timestamp e) = k) logs = [] then None
      else Some ((case map_of d k of None \<Rightarrow> [] | Some xs \<Rightarrow> xs) @
                 filter (\<lambda>e. take 10 (l_timestamp e) = k) logs))"
proof (induction logs arbitrary: d)
  case Nil
  show ?case by (cases "map_of d k") simp_all
next
  case (Cons e logs)
  show ?case
    by (cases "map_of d k"; cases "take 10 (l_timestamp e) = k")
       (simp_all add: Cons.IH Let_def update_conv')
qed

lemma group_logs_lossless:
  "map_of (group_logs logs []) k =
     (if filter (\<lambda>e. take 10 (l_timestamp e) = k) logs = [] then None
      else Some (filter (\<lambda>e. take 10 (l_timestamp e) = k) logs))"
  by (simp add: group_logs_map_of)

text \<open>
  C7: \<^verbatim>\<open>save_data\<close> on the built-in generator of one day. The timestamp column of the
  sensor frame holds the strings of \<^verbatim>\<open>strftime\<close>, so its \<^verbatim>\<open>.dt\<close> accessor raises
  AttributeError right after \<^verbatim>\<open>sensor_data.csv\<close> is written: that file is the only one
  written, and the per-date sensor files and per-date log files hold no row at all,
  while the sensor data has 7200 rows.
\<close>

theorem save_data_raises_before_partitioning:
  "snd (save_data (init sample_start 1) ''./sample_data'' sample_start sample_rng no_files) =
     Some AttributeError \<and>
   map fst (written (fst (save_data (init sample_start 1) ''./sample_data'' sample_start
     sample_rng no_files))) = [''./sample_data/sensor_data.csv''] \<and>
   per_date_sensor_rows ''./sample_data'' (fst (save_data (init sample_start 1)
     ''./sample_data'' sample_start sample_rng no_files)) = [] \<and>
   per_date_log_rows ''./sample_data'' (fst (save_data (init sample_start 1)
     ''./sample_data'' sample_start sample_rng no_files)) = [] \<and>
   length (fst (projr (generate_sensor_data (init sample_start 1) 1440 sample_rng))) = 7200"
proof -
  obtain minutes where m: "py_range3 0 1440 (1440 div 1440) = Inr minutes" "length minutes = 1440"
    using py_range3_minutes [of 1] by auto
  have c: "num_days (init sample_start 1) = 1" "length (sensors (init sample_start 1)) = 5"
    by (simp_all add: init_def create_sensor_config_def)
  obtain sensor_df g1 where d:
    "generate_sensor_data (init sample_start 1) 1440 sample_rng = Inr (sensor_df, g1)"
    "length sensor_df = 7200"
    using generate_sensor_data_rows [of 1440 minutes "init sample_start 1" sample_rng] m c
    by auto
  have ne: "sensor_df \<noteq> []" using d(2) by auto
  have e: "snd (save_data (init sample_start 1) ''./sample_data'' sample_start sample_rng
     no_files) = Some AttributeError"
    using ne by (simp add: save_data_raises [OF d(1)])
  have l: "length (fst (projr (generate_sensor_data (init sample_start 1) 1440 sample_rng))) = 7200"
    using d by simp
  show ?thesis
    using e l save_data_no_partition [OF d(1), of "''./sample_data''" sample_start]
    by simp
qed

subsection \<open>The sensor data as a sequence of records\<close>








subsection \<open>Dates in range\<close>

lemma sample_dates_in_range:
  "dates_in_range (init sample_start 1)" "dates_in_range (init sample_start 2)"
  by (simp_all add: dates_in_range_def init_def sample_start_def min_timestamp_def
      max_timestamp_def timedelta_days_def)

subsection \<open>Row counts on dates in range\<close>

text \<open>
  C3: on a generator of one day whose dates are in range,
  \<^verbatim>\<open>generate_sensor_data(records_per_day=1440)\<close> returns a frame of exactly 1440 rows for
  each configured sensor; with the five built-in sensors that is 7200 rows.
\<close>

theorem generate_sensor_data_every_minute:
  "(num_days self = 1 \<and> dates_in_range self \<longrightarrow>
      (\<exists>data g'. generate_sensor_data self 1440 g = Inr (data, g') \<and>
         length data = 1440 * length (sensors self))) \<and>
   (dates_in_range (init start 1) \<longrightarrow>
      (\<exists>data g'. generate_sensor_data (init start 1) 1440 g = Inr (data, g') \<and>
         length data = 7200))"
proof -
  obtain minutes where m: "py_range3 0 1440 (1440 div 1440) = Inr minutes" "length minutes = 1440"
    using py_range3_minutes [of 1] by auto
  have gen: "\<exists>data g'. generate_sensor_data s 1440 g = Inr (data, g') \<and>
      length data = 1440 * length (sensors s)" if "num_days s = 1" for s
    using generate_sensor_data_rows [of 1440 minutes s g] m that by auto
  have "num_days (init start 1) = 1" "length (sensors (init start 1)) = 5"
    by (simp_all add: init_def create_sensor_config_def)
  then show ?thesis using gen [of self] gen [of "init start 1"] by auto
qed

theorem generate_sensor_data_every_minute_witness:
  "num_days (init sample_start 1) = 1 \<and> dates_in_range (init sample_start 1) \<and>
   length (sensors (init sample_start 1)) = 5 \<and>
   (\<exists>data g'. generate_sensor_data (init sample_start 1) 1440 sample_rng = Inr (data, g') \<and>
      length data = 1440 * 5)"
proof -
  have a: "num_days (init sample_start 1) = 1" "length (sensors (init sample_start 1)) = 5"
    by (simp_all add: init_def create_sensor_config_def)
  show ?thesis
    using a sample_dates_in_range(1)
      generate_sensor_data_every_minute [of "init sample_start 1" sample_rng sample_start]
    by simp
qed

text \<open>
  C4: on a generator whose dates are in range, \<^verbatim>\<open>generate_equipment_logs\<close> returns a list of
  \<^verbatim>\<open>num_days\<close> times the number of equipment times \<^verbatim>\<open>logs_per_day\<close> entries, for
  non-negative \<^verbatim>\<open>num_days\<close> and \<^verbatim>\<open>logs_per_day\<close>; with \<^verbatim>\<open>logs_per_day = 10\<close> on two days and
  the five built-in equipment configs that is 100 entries.
\<close>

theorem generate_equipment_logs_count:
  "(dates_in_range self \<and> 0 \<le> num_days self \<and> 0 \<le> logs_per_day \<longrightarrow>
      (\<exists>logs g'. generate_equipment_logs self logs_per_day g = Inr (logs, g') \<and>
         int (length logs) = num_days self * int (length (equipment self)) * logs_per_day)) \<and>
   (dates_in_range (init start 2) \<longrightarrow>
      (\<exists>logs g'. generate_equipment_logs (init start 2) 10 g = Inr (logs, g') \<and>
         length logs = 100))"
proof -
  have a: "\<exists>logs g'. generate_equipment_logs self logs_per_day g = Inr (logs, g') \<and>
         int (length logs) = num_days self * int (length (equipment self)) * logs_per_day"
    if "0 \<le> num_days self" "0 \<le> logs_per_day"
  proof -
    obtain logs g' where l: "generate_equipment_logs self logs_per_day g = Inr (logs, g')"
      "length logs = nat (num_days self) * (length (equipment self) * nat logs_per_day)"
      using generate_equipment_logs_length by blast
    have "int (length logs) = num_days self * int (length (equipment self)) * logs_per_day"
      using l(2) that by (simp add: ac_simps)
    then show ?thesis using l(1) by blast
  qed
  have c: "num_days (init start 2) = 2" "length (equipment (init start 2)) = 5"
    by (simp_all add: init_def create_equipment_config_def)
  have "\<exists>logs g'. generate_equipment_logs (init start 2) 10 g = Inr (logs, g') \<and>
      length logs = 100"
    using generate_equipment_logs_length [of "init start 2" 10 g] c by simp
  then show ?thesis using a by blast
qed

theorem generate_equipment_logs_count_witness:
  "dates_in_range (init sample_start 2) \<and> 0 \<le> num_days (init sample_start 2) \<and>
   (0::int) \<le> 10 \<and> length (equipment (init sample_start 2)) = 5 \<and>
   (\<exists>logs g'. generate_equipment_logs (init sample_start 2) 10 sample_rng = Inr (logs, g') \<and>
      int (length logs) = 2 * 5 * 10)"
proof -
  have c: "num_days (init sample_start 2) = 2" "length (equipment (init sample_start 2)) = 5"
    by (simp_all add: init_def create_equipment_config_def)
  show ?thesis
    using c sample_dates_in_range(2)
      generate_equipment_logs_count [of "init sample_start 2" 10 sample_rng sample_start]
    by auto
qed

subsection \<open>The draws of one reading\<close>




subsection \<open>A source whose every draw is zero\<close>





subsection \<open>Anomaly injection\<close>



subsection \<open>No validation of the inputs\<close>




subsection \<open>The calendar\<close>

lemma year_of_era:
  fixes doe :: int
  assumes "0 \<le> doe" and "doe \<le> 146096"
  defines "yoe \<equiv> (doe - doe div 1460 + doe div 36524 - doe div 146096) div 365"
  defines "doy \<equiv> doe - (365 * yoe + yoe div 4 - yoe div 100)"
  shows "0 \<le> yoe \<and> yoe \<le> 399 \<and> 0 \<le> doy \<and> doy \<le> 365"
proof (cases "doe = 146096")
  case True
  then show ?thesis by (simp add: yoe_def doy_def)
next
  case False
  then have hi: "doe \<le> 146095" using assms(2) by simp
  define c where "c = doe div 36524"
  define r1 where "r1 = doe mod 36524"
  define q where "q = r1 div 1461"
  define r where "r = r1 mod 1461"
  have d1: "doe = 36524 * c + r1" by (simp add: c_def r1_def)
  have r1b: "0 \<le> r1" "r1 \<le> 36523" by (simp_all add: r1_def)
  have cb: "0 \<le> c" "c \<le> 3"
    using assms(1) hi d1 r1b by linarith+
  have d2: "r1 = 1461 * q + r" by (simp add: q_def r_def)
  have rb: "0 \<le> r" "r \<le> 1460" by (simp_all add: r_def)
  have qb: "0 \<le> q" "q \<le> 24"
    using r1b d2 rb by linarith+
  have q24: "q = 24 \<longrightarrow> r \<le> 1459"
    using r1b d2 by linarith
  have doe: "doe = 36524 * c + 1461 * q + r" using d1 d2 by simp
  define e where "e = 24 * c + q + r"
  define dl :: int where "dl = (if 1460 \<le> e then 1 else 0)"
  have eb: "0 \<le> e" "e \<le> 1556" using cb qb rb by (simp_all add: e_def)
  have dlb: "0 \<le> dl" "dl \<le> 1" by (simp_all add: dl_def)
  have f1: "doe div 1460 = 25 * c + q + dl"
  proof (rule int_div_pos_eq)
    show "doe = 1460 * (25 * c + q + dl) + (e - 1460 * dl)"
      using doe by (simp add: e_def)
    show "0 \<le> e - 1460 * dl" using eb by (simp add: dl_def)
    show "e - 1460 * dl < 1460" using eb by (simp add: dl_def)
  qed
  have f2: "doe div 36524 = c" by (simp add: c_def)
  have f3: "doe div 146096 = 0" using assms(1) hi by simp
  have rd: "0 \<le> r - dl" "r - dl \<le> 1459"
  proof -
    show "0 \<le> r - dl" using cb qb rb by (auto simp add: dl_def e_def)
    show "r - dl \<le> 1459" using cb qb rb by (auto simp add: dl_def e_def)
  qed
  define a where "a = (r - dl) div 365"
  have ab: "0 \<le> a" "a \<le> 3" using rd by (simp_all add: a_def)
  have am: "365 * a \<le> r - dl" "r - dl < 365 * a + 365"
  proof -
    have "r - dl = 365 * a + (r - dl) mod 365" by (simp add: a_def)
    moreover have "0 \<le> (r - dl) mod 365" "(r - dl) mod 365 < 365" by simp_all
    ultimately show "365 * a \<le> r - dl" "r - dl < 365 * a + 365" by linarith+
  qed
  have n: "doe - doe div 1460 + doe div 36524 - doe div 146096 =
      (r - dl) + (100 * c + 4 * q) * 365"
    unfolding f1 f2 f3 using doe by simp
  have y: "yoe = 100 * c + 4 * q + a"
    unfolding yoe_def n a_def by simp
  have y4: "yoe div 4 = 25 * c + q"
  proof (rule int_div_pos_eq)
    show "yoe = 4 * (25 * c + q) + a" using y by simp
    show "0 \<le> a" "a < 4" using ab by simp_all
  qed
  have y100: "yoe div 100 = c"
  proof (rule int_div_pos_eq)
    show "yoe = 100 * c + (4 * q + a)" using y by simp
    show "0 \<le> 4 * q + a" "4 * q + a < 100" using ab qb by simp_all
  qed
  have dy: "doy = r - 365 * a"
    unfolding doy_def y4 y100 using doe y by simp
  have "0 \<le> yoe" "yoe \<le> 399" using y cb qb ab by simp_all
  moreover have "0 \<le> doy" using dy am(1) dlb by simp
  moreover have "doy \<le> 365"
  proof (cases "a = 3")
    case True
    then show ?thesis using dy rb by simp
  next
    case False
    then show ?thesis using dy am(2) dlb by simp
  qed
  ultimately show ?thesis by simp
qed

lemma month_part:
  fixes doy :: int
  assumes "0 \<le> doy" and "doy \<le> 365"
  defines "mp \<equiv> (5 * doy + 2) div 153"
  shows "0 \<le> mp \<and> mp \<le> 11 \<and>
         1 \<le> doy - (153 * mp + 2) div 5 + 1 \<and> doy - (153 * mp + 2) div 5 + 1 \<le> 31"
proof -
  have m: "153 * mp \<le> 5 * doy + 2" "5 * doy + 2 < 153 * mp + 153"
  proof -
    have "5 * doy + 2 = 153 * mp + (5 * doy + 2) mod 153" by (simp add: mp_def)
    moreover have "0 \<le> (5 * doy + 2) mod 153" "(5 * doy + 2) mod 153 < 153" by simp_all
    ultimately show "153 * mp \<le> 5 * doy + 2" "5 * doy + 2 < 153 * mp + 153" by linarith+
  qed
  have mb: "0 \<le> mp" "mp \<le> 11" using m assms(1,2) by linarith+
  define t where "t = (153 * mp + 2) div 5"
  have t: "5 * t \<le> 153 * mp + 2" "153 * mp + 2 < 5 * t + 5"
  proof -
    have "153 * mp + 2 = 5 * t + (153 * mp + 2) mod 5" by (simp add: t_def)
    moreover have "0 \<le> (153 * mp + 2) mod 5" "(153 * mp + 2) mod 5 < 5" by simp_all
    ultimately show "5 * t \<le> 153 * mp + 2" "153 * mp + 2 < 5 * t + 5" by linarith+
  qed
  have "1 \<le> doy - t + 1" using m t by linarith
  moreover have "doy - t + 1 \<le> 31" using m t by linarith
  ultimately show ?thesis using mb by (simp add: t_def)
qed

lemma civil_from_days_fields:
  assumes "civil_from_days z = (y, m, d)"
  shows "1 \<le> m \<and> m \<le> 12 \<and> 1 \<le> d \<and> d \<le> 31 \<and> days_from_civil y m d = z"
proof -
  define era where "era = (z + 719468) div 146097"
  define doe where "doe = z + 719468 - era * 146097"
  define yoe where "yoe = (doe - doe div 1460 + doe div 36524 - doe div 146096) div 365"
  define doy where "doy = doe - (365 * yoe + yoe div 4 - yoe div 100)"
  define mp where "mp = (5 * doy + 2) div 153"
  have doe_mod: "doe = (z + 719468) mod 146097"
    by (simp add: doe_def era_def minus_div_mult_eq_mod)
  have db: "0 \<le> doe" "doe \<le> 146096" by (simp_all add: doe_mod)
  have yb: "0 \<le> yoe \<and> yoe \<le> 399 \<and> 0 \<le> doy \<and> doy \<le> 365"
    unfolding doy_def yoe_def using db by (rule year_of_era)
  have mb: "0 \<le> mp \<and> mp \<le> 11 \<and>
         1 \<le> doy - (153 * mp + 2) div 5 + 1 \<and> doy - (153 * mp + 2) div 5 + 1 \<le> 31"
    unfolding mp_def using yb by (intro month_part) simp_all
  have "civil_from_days z =
      (yoe + era * 400 + (if (if mp < 10 then mp + 3 else mp - 9) \<le> 2 then 1 else 0),
       (if mp < 10 then mp + 3 else mp - 9), doy - (153 * mp + 2) div 5 + 1)"
    unfolding civil_from_days_def Let_def era_def doe_def yoe_def doy_def mp_def ..
  then have "(y, m, d) =
      (yoe + era * 400 + (if (if mp < 10 then mp + 3 else mp - 9) \<le> 2 then 1 else 0),
       (if mp < 10 then mp + 3 else mp - 9), doy - (153 * mp + 2) div 5 + 1)"
    using assms by (simp only:)
  then have m: "m = (if mp < 10 then mp + 3 else mp - 9)"
    and d: "d = doy - (153 * mp + 2) div 5 + 1"
    and y0: "y = yoe + era * 400 + (if (if mp < 10 then mp + 3 else mp - 9) \<le> 2 then 1 else 0)"
    by (simp_all only: prod.inject)
  have y: "y = yoe + era * 400 + (if m \<le> 2 then 1 else 0)"
    using y0 unfolding m .
  have m12: "1 \<le> m" "m \<le> 12" using m mb by (simp_all split: if_splits)
  have mp': "(if m > 2 then m - 3 else m + 9) = mp" using m mb by (simp split: if_splits)
  have y': "(if m \<le> 2 then y - 1 else y) = yoe + era * 400" using y by simp
  have e': "(yoe + era * 400) div 400 = era" using yb by simp
  have "days_from_civil y m d = z"
    unfolding days_from_civil_def Let_def y' e' mp'
    by (simp add: d doy_def doe_def)
  then show ?thesis using m12 mb d by simp
qed

lemma civil_from_days_year:
  assumes "civil_from_days z = (y, m, d)" and "- 106752 \<le> z" and "z \<le> 106751"
  shows "1000 \<le> y \<and> y \<le> 9999"
proof -
  define era where "era = (z + 719468) div 146097"
  define doe where "doe = z + 719468 - era * 146097"
  define yoe where "yoe = (doe - doe div 1460 + doe div 36524 - doe div 146096) div 365"
  define doy where "doy = doe - (365 * yoe + yoe div 4 - yoe div 100)"
  define mp where "mp = (5 * doy + 2) div 153"
  have doe_mod: "doe = (z + 719468) mod 146097"
    by (simp add: doe_def era_def minus_div_mult_eq_mod)
  have db: "0 \<le> doe" "doe \<le> 146096" by (simp_all add: doe_mod)
  have yb: "0 \<le> yoe \<and> yoe \<le> 399 \<and> 0 \<le> doy \<and> doy \<le> 365"
    unfolding doy_def yoe_def using db by (rule year_of_era)
  have "civil_from_days z =
      (yoe + era * 400 + (if (if mp < 10 then mp + 3 else mp - 9) \<le> 2 then 1 else 0),
       (if mp < 10 then mp + 3 else mp - 9), doy - (153 * mp + 2) div 5 + 1)"
    unfolding civil_from_days_def Let_def era_def doe_def yoe_def doy_def mp_def ..
  then have "(y, m, d) =
      (yoe + era * 400 + (if (if mp < 10 then mp + 3 else mp - 9) \<le> 2 then 1 else 0),
       (if mp < 10 then mp + 3 else mp - 9), doy - (153 * mp + 2) div 5 + 1)"
    using assms(1) by (simp only:)
  then have y: "y = yoe + era * 400 + (if (if mp < 10 then mp + 3 else mp - 9) \<le> 2 then 1 else 0)"
    by (simp only: prod.inject)
  have zz: "z + 719468 = era * 146097 + doe" by (simp add: doe_def)
  have e4: "4 \<le> era"
  proof (rule ccontr)
    assume "\<not> 4 \<le> era"
    then have "era \<le> 3" by simp
    then have "era * 146097 \<le> 438291" by simp
    then show False using zz db(2) assms(2) by linarith
  qed
  have e5: "era \<le> 5"
  proof (rule ccontr)
    assume "\<not> era \<le> 5"
    then have "6 \<le> era" by simp
    then have "876582 \<le> era * 146097" by simp
    then show False using zz db(1) assms(3) by linarith
  qed
  have "1600 \<le> era * 400" "era * 400 \<le> 2000" using e4 e5 by simp_all
  then show ?thesis using y yb by (simp split: if_splits)
qed

subsection \<open>Reading a rendered date back\<close>

lemma str_nat_unfold:
  "str_nat n = (if n < 10 then [char_of (48 + n)]
                else str_nat (n div 10) @ [char_of (48 + n mod 10)])"
  by (rule str_nat.simps)

lemma digit_char:
  assumes "d < 10"
  shows "is_digit (char_of (48 + d))" and "(of_char (char_of (48 + d)) :: nat) - 48 = d"
  using assms by (simp_all add: is_digit_def)

lemma nat_of_digits_snoc:
  "nat_of_digits (s @ [c]) = 10 * nat_of_digits s + (of_char c - 48)"
  by (simp add: nat_of_digits_def)

lemma str_nat_one:
  assumes "n < 10"
  shows "str_nat n = [char_of (48 + n)]"
  using assms by (subst str_nat_unfold) simp

lemma str_nat_two:
  assumes "10 \<le> n" and "n < 100"
  shows "str_nat n = [char_of (48 + n div 10), char_of (48 + n mod 10)]"
proof -
  have "n div 10 < 10" using assms(2) by simp
  then have "str_nat (n div 10) = [char_of (48 + n div 10)]" by (rule str_nat_one)
  then show ?thesis using assms(1) by (subst str_nat_unfold) simp
qed

lemma str_nat_four:
  assumes "1000 \<le> n" and "n < 10000"
  shows "str_nat n = [char_of (48 + n div 1000), char_of (48 + n div 100 mod 10),
                      char_of (48 + n div 10 mod 10), char_of (48 + n mod 10)]"
proof -
  have a: "10 \<le> n div 100" "n div 100 < 100" using assms by simp_all
  have "str_nat (n div 100) = [char_of (48 + n div 100 div 10), char_of (48 + n div 100 mod 10)]"
    using a by (rule str_nat_two)
  moreover have k: "n div 100 div 10 = n div 1000" "n div 10 div 10 = n div 100"
    by (simp_all add: div_mult2_eq [symmetric])
  ultimately have b: "str_nat (n div 100) =
      [char_of (48 + n div 1000), char_of (48 + n div 100 mod 10)]"
    by (simp only:)
  have c: "\<not> n div 10 < 10" using assms(1) by simp
  have "str_nat (n div 10) = str_nat (n div 10 div 10) @ [char_of (48 + n div 10 mod 10)]"
    using c by (subst str_nat_unfold) simp
  then have d: "str_nat (n div 10) =
      [char_of (48 + n div 1000), char_of (48 + n div 100 mod 10), char_of (48 + n div 10 mod 10)]"
    unfolding k b by simp
  have "\<not> n < 10" using assms(1) by simp
  then show ?thesis using d by (subst str_nat_unfold) simp
qed

lemma two_digits:
  assumes "n < 100"
  shows "\<exists>a b. zfill 2 (str_nat n) = [a, b] \<and> is_digit a \<and> is_digit b \<and>
           nat_of_digits [a, b] = n"
proof (cases "n < 10")
  case True
  have "zfill 2 (str_nat n) = [CHR ''0'', char_of (48 + n)]"
    using True by (simp add: str_nat_one zfill_def)
  moreover have "is_digit CHR ''0''" by (simp add: is_digit_def)
  moreover have "is_digit (char_of (48 + n))" using True by (rule digit_char)
  moreover have "nat_of_digits [CHR ''0'', char_of (48 + n)] = n"
    using digit_char(2) [OF True] by (simp add: nat_of_digits_def)
  ultimately show ?thesis by blast
next
  case False
  then have t: "10 \<le> n" by simp
  have d: "n div 10 < 10" "n mod 10 < 10" using assms by simp_all
  have "zfill 2 (str_nat n) = [char_of (48 + n div 10), char_of (48 + n mod 10)]"
    using t assms by (simp add: str_nat_two zfill_def)
  moreover have "is_digit (char_of (48 + n div 10))" using d(1) by (rule digit_char)
  moreover have "is_digit (char_of (48 + n mod 10))" using d(2) by (rule digit_char)
  moreover have "nat_of_digits [char_of (48 + n div 10), char_of (48 + n mod 10)] = n"
    using digit_char(2) [OF d(1)] digit_char(2) [OF d(2)] by (simp add: nat_of_digits_def)
  ultimately show ?thesis by blast
qed

lemma four_digits:
  assumes "1000 \<le> n" and "n < 10000"
  shows "\<exists>a b c d. zfill 4 (str_nat n) = [a, b, c, d] \<and> is_digit a \<and> is_digit b \<and>
           is_digit c \<and> is_digit d \<and> nat_of_digits [a, b, c, d] = n"
proof -
  have d: "n div 1000 < 10" "n div 100 mod 10 < 10" "n div 10 mod 10 < 10" "n mod 10 < 10"
    using assms by simp_all
  have "zfill 4 (str_nat n) = [char_of (48 + n div 1000), char_of (48 + n div 100 mod 10),
                      char_of (48 + n div 10 mod 10), char_of (48 + n mod 10)]"
    using assms by (simp add: str_nat_four zfill_def)
  moreover have "is_digit (char_of (48 + n div 1000))" using d(1) by (rule digit_char)
  moreover have "is_digit (char_of (48 + n div 100 mod 10))" using d(2) by (rule digit_char)
  moreover have "is_digit (char_of (48 + n div 10 mod 10))" using d(3) by (rule digit_char)
  moreover have "is_digit (char_of (48 + n mod 10))" using d(4) by (rule digit_char)
  moreover have "nat_of_digits [char_of (48 + n div 1000), char_of (48 + n div 100 mod 10),
                      char_of (48 + n div 10 mod 10), char_of (48 + n mod 10)] = n"
  proof -
    have k: "n div 100 div 10 = n div 1000" "n div 10 div 10 = n div 100"
      by (simp_all add: div_mult2_eq [symmetric])
    have "n = 10 * (n div 10) + n mod 10" by simp
    moreover have "n div 10 = 10 * (n div 10 div 10) + n div 10 mod 10" by simp
    moreover have "n div 100 = 10 * (n div 100 div 10) + n div 100 mod 10" by simp
    ultimately have
      "n = 1000 * (n div 1000) + 100 * (n div 100 mod 10) + 10 * (n div 10 mod 10) + n mod 10"
      unfolding k by linarith
    then show ?thesis
      using digit_char(2) [OF d(1)] digit_char(2) [OF d(2)] digit_char(2) [OF d(3)]
        digit_char(2) [OF d(4)]
      by (simp add: nat_of_digits_def)
  qed
  ultimately show ?thesis by blast
qed

lemma strptime_strftime:
  assumes "- 106752 \<le> z" and "z \<le> 106751"
  shows "strptime_ymd (strftime_ymd z) = Some z"
proof -
  obtain y m d where c: "civil_from_days z = (y, m, d)" by (metis prod_cases3)
  have f: "1 \<le> m" "m \<le> 12" "1 \<le> d" "d \<le> 31" "days_from_civil y m d = z"
    using civil_from_days_fields [OF c] by simp_all
  have yb: "1000 \<le> y" "y \<le> 9999" using civil_from_days_year [OF c assms] by simp_all
  have sy: "str_int y = str_nat (nat y)" "1000 \<le> nat y" "nat y < 10000" "int (nat y) = y"
    using yb by (simp_all add: str_int_def)
  have sm: "str_int m = str_nat (nat m)" "nat m < 100" "int (nat m) = m"
    using f(1,2) by (simp_all add: str_int_def)
  have sd: "str_int d = str_nat (nat d)" "nat d < 100" "int (nat d) = d"
    using f(3,4) by (simp_all add: str_int_def)
  obtain y1 y2 y3 y4 where Y: "zfill 4 (str_nat (nat y)) = [y1, y2, y3, y4]"
    "is_digit y1" "is_digit y2" "is_digit y3" "is_digit y4"
    "nat_of_digits [y1, y2, y3, y4] = nat y"
    using four_digits [OF sy(2,3)] by blast
  obtain m1 m2 where M: "zfill 2 (str_nat (nat m)) = [m1, m2]" "is_digit m1" "is_digit m2"
    "nat_of_digits [m1, m2] = nat m"
    using two_digits [OF sm(2)] by blast
  obtain d1 d2 where D: "zfill 2 (str_nat (nat d)) = [d1, d2]" "is_digit d1" "is_digit d2"
    "nat_of_digits [d1, d2] = nat d"
    using two_digits [OF sd(2)] by blast
  have s: "strftime_ymd z = [y1, y2, y3, y4, CHR ''-'', m1, m2, CHR ''-'', d1, d2]"
    by (simp add: strftime_ymd_def c sy(1) sm(1) sd(1) Y(1) M(1) D(1))
  show ?thesis
    unfolding s strptime_ymd_def
    using Y(2-6) M(2-4) D(2-4) yb(1) f(1) f(3) f(5) by simp
qed

subsection \<open>Maintenance dates read back\<close>

lemma ts_date_range:
  assumes "min_timestamp \<le> ts" and "ts \<le> max_timestamp"
  shows "- 106752 \<le> ts_date ts \<and> ts_date ts \<le> 106751"
proof -
  have lo: "(- 9223372036 :: int) div 86400 = - 106752" by code_simp
  have hi: "(9223372036 :: int) div 86400 = 106751" by code_simp
  have "(- 9223372036 :: int) div 86400 \<le> ts div 86400"
    using assms(1) unfolding min_timestamp_def by (intro zdiv_mono1) simp_all
  moreover have "ts div 86400 \<le> (9223372036 :: int) div 86400"
    using assms(2) unfolding max_timestamp_def by (intro zdiv_mono1) simp_all
  ultimately show ?thesis unfolding lo hi ts_date_def by simp
qed

lemma metric_days_loop_dates:
  "\<exists>new g'. metric_days_loop ds self (metrics, g) = Inr (metrics @ new, g') \<and>
     length new = length ds * length (equipment self) \<and>
     (\<forall>m \<in> set new. \<exists>day \<in> set ds.
        maintenance_consistent (start_date self + timedelta_days day) m)"
proof (induction ds arbitrary: metrics g)
  case Nil
  show ?case by simp
next
  case (Cons d ds)
  obtain n1 g1 where a:
    "equipment_metrics_loop (equipment self) (start_date self + timedelta_days d) (metrics, g)
       = Inr (metrics @ n1, g1)"
    "length n1 = length (equipment self)"
    "\<forall>m \<in> set n1. maintenance_consistent (start_date self + timedelta_days d) m"
    using equipment_metrics_loop_rows by blast
  obtain n2 g2 where b:
    "metric_days_loop ds self (metrics @ n1, g1) = Inr ((metrics @ n1) @ n2, g2)"
    "length n2 = length ds * length (equipment self)"
    "\<forall>m \<in> set n2. \<exists>day \<in> set ds.
        maintenance_consistent (start_date self + timedelta_days day) m"
    using Cons.IH [of "metrics @ n1" g1] by blast
  have "metric_days_loop (d # ds) self (metrics, g) = Inr (metrics @ (n1 @ n2), g2)"
    using a(1) b(1) by (simp add: Let_def)
  moreover have "length (n1 @ n2) = length (d # ds) * length (equipment self)"
    using a(2) b(2) by simp
  moreover have "\<forall>m \<in> set (n1 @ n2). \<exists>day \<in> set (d # ds).
        maintenance_consistent (start_date self + timedelta_days day) m"
    using a(3) b(3) by auto
  ultimately show ?case by blast
qed

lemma maintenance_dates_read_back:
  assumes c: "maintenance_consistent cd m"
    and lo: "min_timestamp \<le> cd - timedelta_days 30"
    and hi: "cd + timedelta_days 30 \<le> max_timestamp"
  shows "\<exists>day k j. 1 \<le> k \<and> k \<le> 30 \<and> 1 \<le> j \<and> j \<le> 30 \<and>
           strptime_ymd (m_date m) = Some day \<and>
           strptime_ymd (m_last_maintenance_date m) = Some (day - k) \<and>
           strptime_ymd (m_next_maintenance_date m) = Some (day + j)"
proof -
  obtain k j where k: "1 \<le> k" "k \<le> 30" "1 \<le> j" "j \<le> 30"
    and f: "m_date m = strftime_ymd (ts_date cd)"
      "m_last_maintenance_date m = strftime_ymd (ts_date cd - k)"
      "m_next_maintenance_date m = strftime_ymd (ts_date cd + j)"
    using c unfolding maintenance_consistent_def by blast
  have b0: "min_timestamp \<le> cd" "cd \<le> max_timestamp"
    using lo hi by (simp_all add: timedelta_days_def)
  have b1: "min_timestamp \<le> cd - timedelta_days k" "cd - timedelta_days k \<le> max_timestamp"
    using lo hi k(1,2) by (simp_all add: timedelta_days_def)
  have b2: "min_timestamp \<le> cd + timedelta_days j" "cd + timedelta_days j \<le> max_timestamp"
    using lo hi k(3,4) by (simp_all add: timedelta_days_def)
  have r0: "strptime_ymd (strftime_ymd (ts_date cd)) = Some (ts_date cd)"
    using ts_date_range [OF b0] by (intro strptime_strftime) simp_all
  have "strptime_ymd (strftime_ymd (ts_date (cd - timedelta_days k))) =
      Some (ts_date (cd - timedelta_days k))"
    using ts_date_range [OF b1] by (intro strptime_strftime) simp_all
  then have r1: "strptime_ymd (strftime_ymd (ts_date cd - k)) = Some (ts_date cd - k)"
    by (simp only: ts_date_shift)
  have "strptime_ymd (strftime_ymd (ts_date (cd + timedelta_days j))) =
      Some (ts_date (cd + timedelta_days j))"
    using ts_date_range [OF b2] by (intro strptime_strftime) simp_all
  then have r2: "strptime_ymd (strftime_ymd (ts_date cd + j)) = Some (ts_date cd + j)"
    by (simp only: ts_date_shift)
  have "1 \<le> k \<and> k \<le> 30 \<and> 1 \<le> j \<and> j \<le> 30 \<and>
           strptime_ymd (m_date m) = Some (ts_date cd) \<and>
           strptime_ymd (m_last_maintenance_date m) = Some (ts_date cd - k) \<and>
           strptime_ymd (m_next_maintenance_date m) = Some (ts_date cd + j)"
    unfolding f using k r0 r1 r2 by (intro conjI)
  then show ?thesis by (intro exI)
qed

text \<open>
  C10: on a generator whose dates are in range, \<^verbatim>\<open>generate_quality_metrics\<close> returns one
  metric for each day and equipment, and the three date strings of every metric read
  back as calendar days: the last maintenance date is 1 to 30 days before the metric's
  date and the next maintenance date is 1 to 30 days after it.
\<close>

theorem generate_quality_metrics_maintenance_dates:
  "dates_in_range self \<longrightarrow>
     (\<exists>metrics g'. generate_quality_metrics self g = Inr (metrics, g') \<and>
        length metrics = nat (num_days self) * length (equipment self) \<and>
        (\<forall>m \<in> set metrics. \<exists>day k j.
           1 \<le> k \<and> k \<le> 30 \<and> 1 \<le> j \<and> j \<le> 30 \<and>
           strptime_ymd (m_date m) = Some day \<and>
           strptime_ymd (m_last_maintenance_date m) = Some (day - k) \<and>
           strptime_ymd (m_next_maintenance_date m) = Some (day + j)))"
proof
  assume r: "dates_in_range self"
  let ?P = "\<lambda>m day k j. 1 \<le> k \<and> k \<le> 30 \<and> 1 \<le> j \<and> j \<le> 30 \<and>
           strptime_ymd (m_date m) = Some day \<and>
           strptime_ymd (m_last_maintenance_date m) = Some (day - k) \<and>
           strptime_ymd (m_next_maintenance_date m) = Some (day + j)"
  obtain metrics g' where a:
    "metric_days_loop (py_range (num_days self)) self ([], g) = Inr ([] @ metrics, g')"
    "length metrics = length (py_range (num_days self)) * length (equipment self)"
    "\<forall>m \<in> set metrics. \<exists>day \<in> set (py_range (num_days self)).
        maintenance_consistent (start_date self + timedelta_days day) m"
    using metric_days_loop_dates [of "py_range (num_days self)" self "[]" g] by blast
  have gen: "generate_quality_metrics self g = Inr (metrics, g')"
    using a(1) by (simp add: generate_quality_metrics_def)
  have len: "length metrics = nat (num_days self) * length (equipment self)"
    using a(2) by simp
  have b: "\<forall>m \<in> set metrics. \<exists>day k j. ?P m day k j"
  proof
    fix m assume "m \<in> set metrics"
    then obtain d where d: "d \<in> set (py_range (num_days self))"
      and c: "maintenance_consistent (start_date self + timedelta_days d) m"
      using a(3) by blast
    have db: "0 \<le> d" "d < num_days self"
      using d by (auto simp add: py_range_def)
    have lo: "min_timestamp \<le> start_date self + timedelta_days d - timedelta_days 30"
      using r db by (simp add: dates_in_range_def timedelta_days_def)
    have hi: "start_date self + timedelta_days d + timedelta_days 30 \<le> max_timestamp"
      using r db by (simp add: dates_in_range_def timedelta_days_def)
    show "\<exists>day k j. ?P m day k j"
      using c lo hi by (rule maintenance_dates_read_back)
  qed
  have "generate_quality_metrics self g = Inr (metrics, g') \<and>
     length metrics = nat (num_days self) * length (equipment self) \<and>
     (\<forall>m \<in> set metrics. \<exists>day k j. ?P m day k j)"
    by (intro conjI gen len b)
  then show "\<exists>metrics g'. generate_quality_metrics self g = Inr (metrics, g') \<and>
        length metrics = nat (num_days self) * length (equipment self) \<and>
        (\<forall>m \<in> set metrics. \<exists>day k j. ?P m day k j)"
    by (intro exI)
qed

theorem generate_quality_metrics_maintenance_dates_witness:
  "dates_in_range (init sample_start 1) \<and>
   (\<exists>metrics g'. generate_quality_metrics (init sample_start 1) sample_rng = Inr (metrics, g') \<and>
      length metrics = 5 \<and>
      (\<exists>day k j. 1 \<le> k \<and> k \<le> 30 \<and> 1 \<le> j \<and> j \<le> 30 \<and>
         strptime_ymd (m_date (hd metrics)) = Some day \<and>
         strptime_ymd (m_last_maintenance_date (hd metrics)) = Some (day - k) \<and>
         strptime_ymd (m_next_maintenance_date (hd metrics)) = Some (day + j)))"
proof -
  let ?P = "\<lambda>m day k j. 1 \<le> k \<and> k \<le> 30 \<and> 1 \<le> j \<and> j \<le> 30 \<and>
           strptime_ymd (m_date m) = Some day \<and>
           strptime_ymd (m_last_maintenance_date m) = Some (day - k) \<and>
           strptime_ymd (m_next_maintenance_date m) = Some (day + j)"
  let ?self = "init sample_start 1"
  have c: "nat (num_days ?self) * length (equipment ?self) = 5"
    by (simp add: init_def create_equipment_config_def)
  from generate_quality_metrics_maintenance_dates [of ?self sample_rng, THEN mp,
      OF sample_dates_in_range(1)]
  obtain metrics where "\<exists>g'. generate_quality_metrics ?self sample_rng = Inr (metrics, g') \<and>
     length metrics = nat (num_days ?self) * length (equipment ?self) \<and>
     (\<forall>m \<in> set metrics. \<exists>day k j. ?P m day k j)" ..
  then obtain g' where x:
    "generate_quality_metrics ?self sample_rng = Inr (metrics, g') \<and>
     length metrics = nat (num_days ?self) * length (equipment ?self) \<and>
     (\<forall>m \<in> set metrics. \<exists>day k j. ?P m day k j)" ..
  have a: "generate_quality_metrics ?self sample_rng = Inr (metrics, g')"
    using x by (rule conjunct1)
  have l: "length metrics = 5"
    using x [THEN conjunct2, THEN conjunct1] c by simp
  have b: "\<forall>m \<in> set metrics. \<exists>day k j. ?P m day k j"
    using x [THEN conjunct2, THEN conjunct2] .
  have "metrics \<noteq> []" using l by auto
  then have "hd metrics \<in> set metrics" by (rule hd_in_set)
  with b have h: "\<exists>day k j. ?P (hd metrics) day k j" by (rule bspec)
  have "generate_quality_metrics ?self sample_rng = Inr (metrics, g') \<and>
     length metrics = 5 \<and> (\<exists>day k j. ?P (hd metrics) day k j)"
    by (intro conjI a l h)
  then have "\<exists>metrics g'. generate_quality_metrics ?self sample_rng = Inr (metrics, g') \<and>
     length metrics = 5 \<and> (\<exists>day k j. ?P (hd metrics) day k j)"
    by (intro exI)
  then show ?thesis using sample_dates_in_range(1) by (intro conjI)
qed

end
